theory Spec2Isabelle
  imports Complex_Main
begin

section \<open>Data model of the game store\<close>

text \<open>
  The store is a single state object (zustand) whose actions replace some of its fields.
  JavaScript numbers are modelled as exact reals (positions, scale, health, rain level) and
  the counters that only ever start at 0 and grow by 1 as naturals. A nullable string is a
  \<open>string option\<close>. \<open>Math.random()\<close> is an explicit argument \<open>rnd\<close>: the k-th call made
  by an operation returns \<open>rnd k\<close>.
\<close>

type_synonym vec3 = "real \<times> real \<times> real"

type_synonym random_source = "nat \<Rightarrow> real"

record NodeData =
  n_id :: string
  n_position :: vec3
  connected :: bool

datatype LevelType =
  PROLOGUE | CHAPTER_1 | NAME | CHEWING | WIND | TRAVEL | CONNECTION | HOME | SUN

datatype InteractionMode = SLINGSHOT | LURE | OBSERVER | CLICK

datatype FeatureType =
  WALL | FLESH_TUNNEL | ORGANIC_PLATFORM | LAKE | DECORATION | EXIT_GATE | BUBBLE | FRAGMENT
  | FLESH_BALL | WIND_EMITTER | WITHERED_LEAF | EMOTION_ORB | SUN_FEATURE | MUSHROOM

text \<open>
  The untyped \<open>data\<close> field carries one of three shapes in this file: \<open>{ text }\<close> with a
  one-character string (kept as its UTF-16 code), \<open>{ char }\<close> with an entry of the stroke
  table (kept as its code point, \<open>None\<close> for an index outside the table) and \<open>{ type }\<close>.
\<close>

datatype Payload = DataText int | DataChar "nat option" | DataType string

record EnvFeature =
  f_id :: string
  f_type :: FeatureType
  f_position :: vec3
  f_scale :: vec3
  f_rotation :: "vec3 option"
  f_color :: "string option"
  f_data :: "Payload option"

record GameState =
  currentLevel :: LevelType
  interactionMode :: InteractionMode
  narrativeIndex :: nat
  nodes :: "NodeData list"
  connections :: "(string \<times> string) list"
  envFeatures :: "EnvFeature list"
  playerPos :: vec3
  cursorWorldPos :: vec3
  isMouseDown :: bool
  hoveredNodeId :: "string option"
  draggingNodeId :: "string option"
  isInteractiveHover :: bool
  sequenceOrder :: "string list"
  nextSequenceIndex :: nat
  tetheredNodeId :: "string option"
  bubblesPopped :: nat
  fragmentsCollected :: nat
  playerScale :: real
  leafHealth :: real
  rainLevel :: real
  isRaining :: bool
  isLevelComplete :: bool

section \<open>Procedural generation\<close>

definition digit_char :: "nat \<Rightarrow> char" where
  "digit_char d = ''0123456789'' ! d"

fun string_of_nat :: "nat \<Rightarrow> string" where
  "string_of_nat n =
     (if n < 10 then [digit_char n] else string_of_nat (n div 10) @ [digit_char (n mod 10)])"

declare string_of_nat.simps [simp del]

definition mkFeature ::
  "string \<Rightarrow> FeatureType \<Rightarrow> vec3 \<Rightarrow> vec3 \<Rightarrow> vec3 option \<Rightarrow> string option \<Rightarrow> Payload option
     \<Rightarrow> EnvFeature" where
  "mkFeature i t p sc r c d =
     \<lparr>f_id = i, f_type = t, f_position = p, f_scale = sc, f_rotation = r, f_color = c,
      f_data = d\<rparr>"

definition mkNode :: "string \<Rightarrow> vec3 \<Rightarrow> NodeData" where
  "mkNode i p = \<lparr>n_id = i, n_position = p, connected = False\<rparr>"

definition generatePrologueEnv :: "NodeData list \<times> EnvFeature list" where
  "generatePrologueEnv =
     ([],
      concat (map (\<lambda>i.
          let z = - 12 + real i * 2; width = 3 - real i * 0.1 in
          [mkFeature (''canal-l-'' @ string_of_nat i) FLESH_TUNNEL (- width, 1, z) (2, 4, 2)
             (Some (0, 0, - 0.2)) (Some ''#d88'') None,
           mkFeature (''canal-r-'' @ string_of_nat i) FLESH_TUNNEL (width, 1, z) (2, 4, 2)
             (Some (0, 0, 0.2)) (Some ''#d88'') None]) [0..<14])
      @ [mkFeature ''exit-gate'' EXIT_GATE (0, 2, 16) (1, 1, 1) None (Some ''#fff'') None])"

definition level1_positions :: "vec3 list" where
  "level1_positions = [(- 4, 0, - 4), (0, 0, - 2), (4, 0, - 4), (- 2, 0, 2), (2, 0, 2), (0, 0, 5)]"

definition generateLevel1Env :: "random_source \<Rightarrow> NodeData list \<times> EnvFeature list" where
  "generateLevel1Env rnd =
     (map (\<lambda>(pos, i). mkNode (''n1-'' @ string_of_nat i) (fst pos, 0.5, snd (snd pos)))
        (zip level1_positions [0..<length level1_positions]),
      map (\<lambda>i. mkFeature (''spore-'' @ string_of_nat i) DECORATION
             ((rnd (2 * i) - 0.5) * 15, 0, (rnd (2 * i + 1) - 0.5) * 15) (0.5, 0.5, 0.5)
             None (Some ''#e6e6fa'') None) [0..<8])"

definition generateNameEnv :: "random_source \<Rightarrow> NodeData list \<times> EnvFeature list" where
  "generateNameEnv rnd =
     ([],
      map (\<lambda>i. mkFeature (''bubble-'' @ string_of_nat i) BUBBLE
             ((rnd (4 * i) - 0.5) * 12, 1 + rnd (4 * i + 1) * 2, (rnd (4 * i + 2) - 0.5) * 12)
             (0.8, 0.8, 0.8) None (Some ''#e6e6fa'')
             (Some (DataText (19968 + \<lfloor>rnd (4 * i + 3) * 100\<rfloor>)))) [0..<15])"

definition generateChewingEnv :: "random_source \<Rightarrow> NodeData list \<times> EnvFeature list" where
  "generateChewingEnv rnd =
     ([],
      map (\<lambda>i. mkFeature (''fleshball-'' @ string_of_nat i) FLESH_BALL
             ((rnd (4 * i) - 0.5) * 3, 0.5, - 5 + real i * 1.5)
             (1 + rnd (4 * i + 1), 1 + rnd (4 * i + 2), 1 + rnd (4 * i + 3))
             None (Some ''#ff9999'') None) [0..<20])"

definition generateWindEnv :: "NodeData list \<times> EnvFeature list" where
  "generateWindEnv =
     ([],
      [mkFeature ''wind-emitter'' WIND_EMITTER (0, 2, - 10) (1, 1, 1) None (Some ''#fff'') None,
       mkFeature ''withered-leaf'' WITHERED_LEAF (0, 1, 5) (2, 2, 2) None (Some ''#8b4513'')
         None])"

definition generateTravelEnv :: "NodeData list \<times> EnvFeature list" where
  "generateTravelEnv =
     ([],
      [mkFeature ''orb-happy'' EMOTION_ORB (- 5, 0.8, - 5) (2, 2, 2) None (Some ''#ffd700'')
         (Some (DataType ''HAPPY'')),
       mkFeature ''orb-angry'' EMOTION_ORB (5, 0.8, - 5) (2, 2, 2) None (Some ''#ff4500'')
         (Some (DataType ''ANGRY'')),
       mkFeature ''orb-envy'' EMOTION_ORB (- 5, 0.8, 5) (2, 2, 2) None (Some ''#800080'')
         (Some (DataType ''ENVY'')),
       mkFeature ''orb-tear'' EMOTION_ORB (5, 0.8, 5) (2, 2, 2) None (Some ''#00bfff'')
         (Some (DataType ''TEAR''))])"

definition generateConnectionEnv :: "NodeData list \<times> EnvFeature list" where
  "generateConnectionEnv =
     ([mkNode ''n2-low-1'' (- 5, 0.5, 4),
       mkNode ''n2-low-2'' (5, 0.5, 4),
       mkNode ''n2-mid'' (0, 0.5, 0),
       mkNode ''n2-high-1'' (- 2, 3, - 2),
       mkNode ''n2-high-2'' (2, 3, - 2)],
      [mkFeature ''plat-upper'' ORGANIC_PLATFORM (0, 2.5, - 2) (6, 0.5, 6) None
         (Some ''#fff0f5'') None])"

definition generateHomeEnv :: "NodeData list \<times> EnvFeature list" where
  "generateHomeEnv =
     ([], [mkFeature ''lake'' LAKE (0, - 2, - 15) (30, 1, 30) None (Some ''#ffffff'') None])"

definition generateSunEnv :: "NodeData list \<times> EnvFeature list" where
  "generateSunEnv =
     ([],
      [mkFeature ''the-sun'' SUN_FEATURE (0, 10, - 20) (8, 8, 8) None (Some ''#ff0000'') None,
       mkFeature ''mushroom'' MUSHROOM (0, 0.5, 2) (1, 1, 1) None (Some ''#f0e68c'') None])"

fun START_POSITIONS :: "LevelType \<Rightarrow> vec3" where
  "START_POSITIONS PROLOGUE = (0, 0.5, - 12)"
| "START_POSITIONS CHAPTER_1 = (0, 0.5, 8)"
| "START_POSITIONS NAME = (0, 0.5, 0)"
| "START_POSITIONS CHEWING = (0, 0.5, - 8)"
| "START_POSITIONS WIND = (0, 0.5, 8)"
| "START_POSITIONS TRAVEL = (0, 0.5, 0)"
| "START_POSITIONS CONNECTION = (0, 0.5, 8)"
| "START_POSITIONS HOME = (0, 0.5, 5)"
| "START_POSITIONS SUN = (0, 0.5, 5)"

section \<open>The store and its actions\<close>

definition initialState :: GameState where
  "initialState =
     \<lparr>currentLevel = PROLOGUE, interactionMode = SLINGSHOT, narrativeIndex = 0, nodes = [],
      connections = [], envFeatures = [], playerPos = (0, 0.5, - 12), cursorWorldPos = (0, 0, 0),
      isMouseDown = False, hoveredNodeId = None, draggingNodeId = None,
      isInteractiveHover = False, sequenceOrder = [], nextSequenceIndex = 0,
      tetheredNodeId = None, bubblesPopped = 0, fragmentsCollected = 0, playerScale = 1,
      leafHealth = 0, rainLevel = 0, isRaining = False, isLevelComplete = False\<rparr>"

definition setCursorWorldPos :: "vec3 \<Rightarrow> GameState \<Rightarrow> GameState" where
  "setCursorWorldPos pos s = s\<lparr>cursorWorldPos := pos\<rparr>"

definition setMouseDown :: "bool \<Rightarrow> GameState \<Rightarrow> GameState" where
  "setMouseDown isDown s = s\<lparr>isMouseDown := isDown\<rparr>"

definition setHoveredNode :: "string option \<Rightarrow> GameState \<Rightarrow> GameState" where
  "setHoveredNode i s = s\<lparr>hoveredNodeId := i\<rparr>"

definition setInteractiveHover :: "bool \<Rightarrow> GameState \<Rightarrow> GameState" where
  "setInteractiveHover isHover s = s\<lparr>isInteractiveHover := isHover\<rparr>"

definition startDragConnection :: "string \<Rightarrow> GameState \<Rightarrow> GameState" where
  "startDragConnection i s = s\<lparr>draggingNodeId := Some i\<rparr>"

definition cancelDrag :: "GameState \<Rightarrow> GameState" where
  "cancelDrag s = s\<lparr>draggingNodeId := None\<rparr>"

definition setTetheredNode :: "string option \<Rightarrow> GameState \<Rightarrow> GameState" where
  "setTetheredNode i s = s\<lparr>tetheredNodeId := i\<rparr>"

text \<open>The six-entry stroke table of \<open>popBubble\<close>, as code points.\<close>

definition strokes :: "nat list" where
  "strokes = [20031, 20022, 19968, 20008, 20057, 20032]"

text \<open>Reading an array at an index: \<open>undefined\<close> outside the array.\<close>

definition at_index :: "'a list \<Rightarrow> int \<Rightarrow> 'a option" where
  "at_index xs k = (if 0 \<le> k \<and> k < int (length xs) then Some (xs ! nat k) else None)"

definition popBubble :: "random_source \<Rightarrow> string \<Rightarrow> GameState \<Rightarrow> GameState" where
  "popBubble rnd i s =
     (case find (\<lambda>f. f_id f = i) (envFeatures s) of
        None \<Rightarrow> s
      | Some bubble \<Rightarrow>
          let newEnv = filter (\<lambda>f. f_id f \<noteq> i) (envFeatures s)
                @ map (\<lambda>k. mkFeature (''frag-'' @ i @ ''-'' @ string_of_nat k) FRAGMENT
                         (fst (f_position bubble) + (rnd (4 * k) - 0.5), 0.2,
                          snd (snd (f_position bubble)) + (rnd (4 * k + 1) - 0.5))
                         (0.5, 0.5, 0.5) (Some (- pi / 2, 0, rnd (4 * k + 2) * pi))
                         (Some ''#e0a0ff'')
                         (Some (DataChar (at_index strokes
                            \<lfloor>rnd (4 * k + 3) * real (length strokes)\<rfloor>)))) [0..<3]
          in s\<lparr>envFeatures := newEnv, bubblesPopped := bubblesPopped s + 1,
               isInteractiveHover := False\<rparr>)"

definition absorbFragment :: "string \<Rightarrow> GameState \<Rightarrow> GameState" where
  "absorbFragment i s =
     (let newEnv = filter (\<lambda>f. f_id f \<noteq> i) (envFeatures s);
          count = fragmentsCollected s + 1;
          isComplete = (count \<ge> 5)
      in s\<lparr>envFeatures := newEnv, fragmentsCollected := count, isLevelComplete := isComplete,
           narrativeIndex := (if isComplete then 1 else narrativeIndex s)\<rparr>)"

definition growPlayer :: "real \<Rightarrow> GameState \<Rightarrow> GameState" where
  "growPlayer amount s =
     (let newScale = min (playerScale s + amount) 10;
          isComplete = (newScale > 8)
      in s\<lparr>playerScale := newScale, isLevelComplete := isComplete,
           narrativeIndex := (if isComplete then 1 else narrativeIndex s)\<rparr>)"

definition healLeaf :: "real \<Rightarrow> GameState \<Rightarrow> GameState" where
  "healLeaf amount s =
     (let newHealth = min (leafHealth s + amount) 100
      in s\<lparr>leafHealth := newHealth, isLevelComplete := (newHealth \<ge> 100)\<rparr>)"

definition selectVehicle :: "string \<Rightarrow> GameState \<Rightarrow> GameState" where
  "selectVehicle ty s =
     (if ty = ''TEAR'' then s\<lparr>isLevelComplete := True, narrativeIndex := 1\<rparr> else s)"

text \<open>JavaScript truthiness of a possibly missing string: \<open>null\<close>, \<open>undefined\<close> and the
  empty string are falsy.\<close>

fun falsy :: "string option \<Rightarrow> bool" where
  "falsy None = True"
| "falsy (Some x) = (x = [])"

definition flat :: "(string \<times> string) list \<Rightarrow> string list" where
  "flat cs = concat (map (\<lambda>c. [fst c, snd c]) cs)"

text \<open>The source of a connection: the tethered node in the tether level, the dragged
  node elsewhere.\<close>

definition sourceId :: "GameState \<Rightarrow> string option" where
  "sourceId s = (if currentLevel s = CONNECTION then tetheredNodeId s else draggingNodeId s)"

definition completeConnection :: "string \<Rightarrow> GameState \<Rightarrow> GameState" where
  "completeConnection targetId s =
     (if falsy (sourceId s) \<or> sourceId s = Some targetId then s\<lparr>draggingNodeId := None\<rparr>
      else
        let src = the (sourceId s);
            exists = list_ex (\<lambda>c. (fst c = src \<and> snd c = targetId)
                                   \<or> (fst c = targetId \<and> snd c = src)) (connections s)
        in if \<not> exists then
             let currentSource = at_index (sequenceOrder s) (int (nextSequenceIndex s));
                 currentTarget = at_index (sequenceOrder s) (int (nextSequenceIndex s) + 1);
                 isValid = ((Some src = currentSource \<and> Some targetId = currentTarget)
                            \<or> (Some src = currentTarget \<and> Some targetId = currentSource))
             in if currentLevel s = CHAPTER_1
                   \<and> (falsy currentSource \<or> falsy currentTarget \<or> \<not> isValid)
                then s\<lparr>draggingNodeId := None\<rparr>
                else
                  let newConnections = connections s @ [(src, targetId)];
                      newNodes = map (\<lambda>n. if n_id n = src \<or> n_id n = targetId
                                            then n\<lparr>connected := True\<rparr> else n) (nodes s);
                      connectedSet = remdups (flat newConnections);
                      isComplete = (length connectedSet \<ge> length (nodes s)
                                    \<and> length (nodes s) > 0);
                      newSeqIndex = (if currentLevel s = CHAPTER_1
                                     then nextSequenceIndex s + 1 else nextSequenceIndex s)
                  in s\<lparr>connections := newConnections, nodes := newNodes,
                       draggingNodeId := None, narrativeIndex := narrativeIndex s + 1,
                       isLevelComplete := isComplete, nextSequenceIndex := newSeqIndex\<rparr>
           else s\<lparr>draggingNodeId := None\<rparr>)"

definition updatePlayerPos :: "vec3 \<Rightarrow> GameState \<Rightarrow> GameState" where
  "updatePlayerPos pos s = s\<lparr>playerPos := pos\<rparr>"

definition advanceNarrative :: "GameState \<Rightarrow> GameState" where
  "advanceNarrative s = s\<lparr>narrativeIndex := narrativeIndex s + 1\<rparr>"

fun generate :: "random_source \<Rightarrow> LevelType \<Rightarrow> NodeData list \<times> EnvFeature list" where
  "generate rnd PROLOGUE = generatePrologueEnv"
| "generate rnd CHAPTER_1 = generateLevel1Env rnd"
| "generate rnd NAME = generateNameEnv rnd"
| "generate rnd CHEWING = generateChewingEnv rnd"
| "generate rnd WIND = generateWindEnv"
| "generate rnd TRAVEL = generateTravelEnv"
| "generate rnd CONNECTION = generateConnectionEnv"
| "generate rnd HOME = generateHomeEnv"
| "generate rnd SUN = generateSunEnv"

fun level_mode :: "LevelType \<Rightarrow> InteractionMode" where
  "level_mode PROLOGUE = SLINGSHOT"
| "level_mode HOME = OBSERVER"
| "level_mode SUN = CLICK"
| "level_mode _ = LURE"

definition startLevel :: "random_source \<Rightarrow> LevelType \<Rightarrow> GameState \<Rightarrow> GameState" where
  "startLevel rnd level s =
     (let genResult = generate rnd level;
          seq = (if level = CHAPTER_1 then map n_id (fst genResult) else []);
          startP = START_POSITIONS level
      in s\<lparr>currentLevel := level, interactionMode := level_mode level,
           nodes := fst genResult, envFeatures := snd genResult, connections := [],
           playerPos := startP, cursorWorldPos := startP, isLevelComplete := False,
           narrativeIndex := 0, draggingNodeId := None, sequenceOrder := seq,
           nextSequenceIndex := 0, tetheredNodeId := None, bubblesPopped := 0,
           fragmentsCollected := 0, playerScale := 1, leafHealth := 0, rainLevel := 0,
           isRaining := False, isInteractiveHover := False\<rparr>)"

text \<open>A random source for levels that draw nothing, and for concrete runs.\<close>

definition zero_source :: random_source where
  "zero_source k = 0"

definition resetGame :: "GameState \<Rightarrow> GameState" where
  "resetGame s = startLevel zero_source PROLOGUE s"

section \<open>Timers, notifications and the operations of the store\<close>

text \<open>
  \<open>triggerRain\<close> starts a repeating interval whose callback owns a latch
  \<open>hasTriggeredExtinguish\<close>; \<open>clearInterval\<close> stops it for good. The world is the store
  together with the intervals created so far and the audio notifications fired so far.
  One firing of the callback of interval \<open>i\<close> is the operation \<open>Tick i\<close>; a cleared or
  absent interval is never fired.
\<close>

datatype Sound = BubblePop | FloodSound | SunExtinguish

record Interval =
  cleared :: bool
  hasTriggeredExtinguish :: bool

record World =
  store :: GameState
  intervals :: "Interval list"
  audio :: "Sound list"

definition initialWorld :: World where
  "initialWorld = \<lparr>store = initialState, intervals = [], audio = []\<rparr>"

definition triggerRain :: "World \<Rightarrow> World" where
  "triggerRain w =
     w\<lparr>store := (store w)\<lparr>isRaining := True, isInteractiveHover := False\<rparr>,
       audio := audio w @ [FloodSound],
       intervals := intervals w @ [\<lparr>cleared = False, hasTriggeredExtinguish = False\<rparr>]\<rparr>"

definition rainTick :: "nat \<Rightarrow> World \<Rightarrow> World" where
  "rainTick i w =
     (if i < length (intervals w) \<and> \<not> cleared (intervals w ! i) then
        if rainLevel (store w) \<ge> 20 then
          w\<lparr>intervals := (intervals w)[i := (intervals w ! i)\<lparr>cleared := True\<rparr>],
            store := (store w)\<lparr>isLevelComplete := True, narrativeIndex := 1\<rparr>\<rparr>
        else
          let nextLevel = rainLevel (store w) + 0.04;
              fire = (\<not> hasTriggeredExtinguish (intervals w ! i) \<and> nextLevel > 6.0)
          in w\<lparr>audio := audio w @ (if fire then [SunExtinguish] else []),
               intervals := (intervals w)[i := (intervals w ! i)
                  \<lparr>hasTriggeredExtinguish := hasTriggeredExtinguish (intervals w ! i) \<or> fire\<rparr>],
               store := (store w)\<lparr>rainLevel := nextLevel\<rparr>\<rparr>
      else w)"

datatype Op =
  SetCursorWorldPos vec3
  | SetMouseDown bool
  | SetHoveredNode "string option"
  | SetInteractiveHover bool
  | StartDragConnection string
  | CancelDrag
  | CompleteConnection string
  | UpdatePlayerPos vec3
  | AdvanceNarrative
  | StartLevel random_source LevelType
  | ResetGame
  | SetTetheredNode "string option"
  | PopBubble random_source string
  | AbsorbFragment string
  | GrowPlayer real
  | HealLeaf real
  | TriggerRain
  | SelectVehicle string
  | Tick nat

definition on_store :: "(GameState \<Rightarrow> GameState) \<Rightarrow> World \<Rightarrow> World" where
  "on_store f w = w\<lparr>store := f (store w)\<rparr>"

fun exec :: "Op \<Rightarrow> World \<Rightarrow> World" where
  "exec (SetCursorWorldPos p) w = on_store (setCursorWorldPos p) w"
| "exec (SetMouseDown b) w = on_store (setMouseDown b) w"
| "exec (SetHoveredNode i) w = on_store (setHoveredNode i) w"
| "exec (SetInteractiveHover b) w = on_store (setInteractiveHover b) w"
| "exec (StartDragConnection i) w = on_store (startDragConnection i) w"
| "exec CancelDrag w = on_store cancelDrag w"
| "exec (CompleteConnection t) w = on_store (completeConnection t) w"
| "exec (UpdatePlayerPos p) w = on_store (updatePlayerPos p) w"
| "exec AdvanceNarrative w = on_store advanceNarrative w"
| "exec (StartLevel rnd l) w = on_store (startLevel rnd l) w"
| "exec ResetGame w = on_store resetGame w"
| "exec (SetTetheredNode i) w = on_store (setTetheredNode i) w"
| "exec (PopBubble rnd i) w = on_store (popBubble rnd i) (w\<lparr>audio := audio w @ [BubblePop]\<rparr>)"
| "exec (AbsorbFragment i) w = on_store (absorbFragment i) w"
| "exec (GrowPlayer a) w = on_store (growPlayer a) w"
| "exec (HealLeaf a) w = on_store (healLeaf a) w"
| "exec TriggerRain w = triggerRain w"
| "exec (SelectVehicle ty) w = on_store (selectVehicle ty) w"
| "exec (Tick i) w = rainTick i w"

text \<open>Running a list of operations, first to last.\<close>

fun run :: "Op list \<Rightarrow> World \<Rightarrow> World" where
  "run [] w = w"
| "run (op # ops) w = run ops (exec op w)"

fun is_start :: "Op \<Rightarrow> bool" where
  "is_start (StartLevel rnd l) = True"
| "is_start ResetGame = True"
| "is_start _ = False"

section \<open>Notions used to state the properties\<close>

text \<open>The ids of the nodes of the current level.\<close>

definition node_ids :: "GameState \<Rightarrow> string set" where
  "node_ids s = n_id ` set (nodes s)"

text \<open>An operation names only nodes of the current level: what a caller that starts drags,
  tethers and completes connections on rendered nodes does.\<close>

fun names_nodes :: "Op \<Rightarrow> GameState \<Rightarrow> bool" where
  "names_nodes (StartDragConnection i) s = (i \<in> node_ids s)"
| "names_nodes (SetTetheredNode (Some i)) s = (i \<in> node_ids s)"
| "names_nodes (CompleteConnection t) s = (t \<in> node_ids s)"
| "names_nodes _ s = True"

fun run_names_nodes :: "Op list \<Rightarrow> World \<Rightarrow> bool" where
  "run_names_nodes [] w = True"
| "run_names_nodes (op # ops) w = (names_nodes op (store w) \<and> run_names_nodes ops (exec op w))"

text \<open>The amount of a growth or healing operation is not negative.\<close>

fun nonneg_amount :: "Op \<Rightarrow> bool" where
  "nonneg_amount (GrowPlayer a) = (0 \<le> a)"
| "nonneg_amount (HealLeaf a) = (0 \<le> a)"
| "nonneg_amount _ = True"


text \<open>The unordered pair of a connection.\<close>

definition edge :: "string \<times> string \<Rightarrow> string set" where
  "edge c = {fst c, snd c}"

text \<open>The guards under which \<open>completeConnection\<close> records the edge: a usable source
  that differs from the target, no such undirected edge yet and, in the sequence level, the
  pair that the sequence order expects next.\<close>

definition accepts :: "string \<Rightarrow> GameState \<Rightarrow> bool" where
  "accepts t s =
     (case sourceId s of
        None \<Rightarrow> False
      | Some src \<Rightarrow>
          src \<noteq> [] \<and> src \<noteq> t
          \<and> \<not> list_ex (\<lambda>c. (fst c = src \<and> snd c = t) \<or> (fst c = t \<and> snd c = src))
                (connections s)
          \<and> (currentLevel s = CHAPTER_1 \<longrightarrow>
               \<not> falsy (at_index (sequenceOrder s) (int (nextSequenceIndex s)))
               \<and> \<not> falsy (at_index (sequenceOrder s) (int (nextSequenceIndex s) + 1))
               \<and> ((Some src = at_index (sequenceOrder s) (int (nextSequenceIndex s))
                    \<and> Some t = at_index (sequenceOrder s) (int (nextSequenceIndex s) + 1))
                   \<or> (Some src = at_index (sequenceOrder s) (int (nextSequenceIndex s) + 1)
                       \<and> Some t = at_index (sequenceOrder s) (int (nextSequenceIndex s))))))"

text \<open>A run in the sequence level: the first edge is made, then the same drag starts
  again.\<close>

definition repeat_edge_world :: World where
  "repeat_edge_world =
     run [StartLevel zero_source CHAPTER_1, StartDragConnection ''n1-0'',
          CompleteConnection ''n1-1'', StartDragConnection ''n1-0''] initialWorld"

text \<open>What holds of the sequence level at every state of a run: the sequence order is the
  level's six node ids, the index stays inside it, and the connections are the first
  \<open>nextSequenceIndex\<close> consecutive pairs of the order.\<close>

definition seq_inv :: "GameState \<Rightarrow> bool" where
  "seq_inv s =
     (currentLevel s = CHAPTER_1 \<longrightarrow>
        sequenceOrder s = [''n1-0'', ''n1-1'', ''n1-2'', ''n1-3'', ''n1-4'', ''n1-5'']
        \<and> map n_id (nodes s) = sequenceOrder s
        \<and> nextSequenceIndex s < length (sequenceOrder s)
        \<and> length (connections s) = nextSequenceIndex s
        \<and> map edge (connections s)
            = map (\<lambda>j. {sequenceOrder s ! j, sequenceOrder s ! (j + 1)})
                [0..<nextSequenceIndex s])"

text \<open>Drag, tether and connections name only nodes of the level.\<close>

definition ids_inv :: "GameState \<Rightarrow> bool" where
  "ids_inv s =
     ((case draggingNodeId s of None \<Rightarrow> True | Some i \<Rightarrow> i \<in> node_ids s)
      \<and> (case tetheredNodeId s of None \<Rightarrow> True | Some i \<Rightarrow> i \<in> node_ids s)
      \<and> set (flat (connections s)) \<subseteq> node_ids s)"

text \<open>Runs in the sequence level: a drag from the first node; and the first two edges
  made in order.\<close>

definition drag_world :: World where
  "drag_world = run [StartLevel zero_source CHAPTER_1, StartDragConnection ''n1-0''] initialWorld"

definition two_edges_ops :: "Op list" where
  "two_edges_ops =
     [StartLevel zero_source CHAPTER_1, StartDragConnection ''n1-0'',
      CompleteConnection ''n1-1'', StartDragConnection ''n1-1'', CompleteConnection ''n1-2'']"

text \<open>Runs in the tether level: three edges among five ids that are not nodes; one edge
  from a tether that is not a node; a star around the middle node; and a forest of two
  components that is one edge short of touching every node.\<close>

definition ghost_ops :: "Op list" where
  "ghost_ops =
     [StartLevel zero_source CONNECTION,
      SetTetheredNode (Some ''a''), CompleteConnection ''b'',
      SetTetheredNode (Some ''c''), CompleteConnection ''d'',
      SetTetheredNode (Some ''e''), CompleteConnection ''a'']"

definition stray_ops :: "Op list" where
  "stray_ops =
     [StartLevel zero_source CONNECTION, SetTetheredNode (Some ''ghost''),
      CompleteConnection ''n2-mid'']"

definition star_ops :: "Op list" where
  "star_ops =
     [StartLevel zero_source CONNECTION,
      SetTetheredNode (Some ''n2-mid''), CompleteConnection ''n2-low-1'',
      CompleteConnection ''n2-low-2'', CompleteConnection ''n2-low-1'',
      StartDragConnection ''n2-high-1'', CancelDrag]"

definition forest_ops :: "Op list" where
  "forest_ops =
     [StartLevel zero_source CONNECTION,
      SetTetheredNode (Some ''n2-low-1''), CompleteConnection ''n2-low-2'',
      SetTetheredNode (Some ''n2-mid''), CompleteConnection ''n2-high-1'',
      SetTetheredNode (Some ''n2-high-2'')]"

text \<open>The condition that an operation evaluates to set \<open>isLevelComplete\<close> already holds
  before the call (and a growth or healing amount is not negative); operations that do not
  evaluate one have nothing to hold.\<close>

fun own_condition :: "Op \<Rightarrow> GameState \<Rightarrow> bool" where
  "own_condition (AbsorbFragment i) s = (5 \<le> fragmentsCollected s)"
| "own_condition (GrowPlayer a) s = (0 \<le> a \<and> 8 < playerScale s)"
| "own_condition (HealLeaf a) s = (0 \<le> a \<and> 100 \<le> leafHealth s)"
| "own_condition (CompleteConnection t) s =
     (length (nodes s) \<le> length (remdups (flat (connections s))) \<and> 0 < length (nodes s))"
| "own_condition _ s = True"

text \<open>The operations whose code writes \<open>isLevelComplete\<close>.\<close>

fun writes_flag :: "Op \<Rightarrow> bool" where
  "writes_flag (StartLevel rnd l) = True"
| "writes_flag ResetGame = True"
| "writes_flag (AbsorbFragment i) = True"
| "writes_flag (GrowPlayer a) = True"
| "writes_flag (HealLeaf a) = True"
| "writes_flag (CompleteConnection t) = True"
| "writes_flag (SelectVehicle ty) = True"
| "writes_flag (Tick k) = True"
| "writes_flag _ = False"

text \<open>The ranges of the three gauges.\<close>

definition gauges_inv :: "GameState \<Rightarrow> bool" where
  "gauges_inv s =
     (1 \<le> playerScale s \<and> playerScale s \<le> 10 \<and> 0 \<le> leafHealth s \<and> leafHealth s \<le> 100
      \<and> 0 \<le> rainLevel s \<and> rainLevel s < 20 + 0.04)"

text \<open>Runs in the growth level: grown to the full scale; then healing a leaf; and shrinking
  by negative amounts.\<close>

definition grown_world :: World where
  "grown_world = run [StartLevel zero_source CHEWING, GrowPlayer 9] initialWorld"

definition shrink_ops :: "Op list" where
  "shrink_ops = [StartLevel zero_source CHEWING, GrowPlayer (- 1), HealLeaf (- 5)]"

definition grow_ops :: "Op list" where
  "grow_ops = [StartLevel zero_source SUN, GrowPlayer 4, GrowPlayer 7, HealLeaf 30, TriggerRain, Tick 0]"



text \<open>A run in the bubble level that pops the first two bubbles, and five of the six
  fragments they leave.\<close>

definition name_ops :: "Op list" where
  "name_ops =
     [StartLevel zero_source NAME, PopBubble zero_source ''bubble-0'',
      PopBubble zero_source ''bubble-1'']"

definition five_frags :: "string list" where
  "five_frags =
     [''frag-bubble-0-0'', ''frag-bubble-0-1'', ''frag-bubble-0-2'', ''frag-bubble-1-0'',
      ''frag-bubble-1-1'']"


section \<open>Basic facts\<close>

lemma string_of_nat_digit: "n < 10 \<Longrightarrow> string_of_nat n = [digit_char n]"
  by (simp add: string_of_nat.simps)

lemmas setter_defs =
  setCursorWorldPos_def setMouseDown_def setHoveredNode_def setInteractiveHover_def
  startDragConnection_def cancelDrag_def setTetheredNode_def updatePlayerPos_def
  advanceNarrative_def

section \<open>Level start and reset\<close>

text \<open>
  C7 (as amended). \<open>startLevel\<close> is one update of the store: it installs the generator's
  nodes and features, the level's interaction mode and sequence order, puts player and
  cursor on the level's spawn point, empties the connections, clears \<open>draggingNodeId\<close>,
  \<open>tetheredNodeId\<close>, \<open>nextSequenceIndex\<close>, the mechanic counters, \<open>isLevelComplete\<close> and
  the interactive-hover flag, and sets \<open>narrativeIndex\<close> to 0. The two fields it does not
  write, \<open>hoveredNodeId\<close> and \<open>isMouseDown\<close>, keep their values. \<open>resetGame\<close> is
  \<open>startLevel\<close> at \<open>PROLOGUE\<close> (whose generator draws no random number).
\<close>

theorem startLevel_replaces:
  "startLevel rnd level s =
     \<lparr>currentLevel = level, interactionMode = level_mode level, narrativeIndex = 0,
      nodes = fst (generate rnd level), connections = [],
      envFeatures = snd (generate rnd level), playerPos = START_POSITIONS level,
      cursorWorldPos = START_POSITIONS level, isMouseDown = isMouseDown s,
      hoveredNodeId = hoveredNodeId s, draggingNodeId = None, isInteractiveHover = False,
      sequenceOrder = (if level = CHAPTER_1 then map n_id (fst (generate rnd level)) else []),
      nextSequenceIndex = 0, tetheredNodeId = None, bubblesPopped = 0,
      fragmentsCollected = 0, playerScale = 1, leafHealth = 0, rainLevel = 0,
      isRaining = False, isLevelComplete = False\<rparr>
   \<and> resetGame s = startLevel rnd PROLOGUE s
   \<and> currentLevel (resetGame s) = PROLOGUE
   \<and> bubblesPopped (resetGame s) = 0 \<and> fragmentsCollected (resetGame s) = 0
   \<and> playerScale (resetGame s) = 1 \<and> leafHealth (resetGame s) = 0
   \<and> rainLevel (resetGame s) = 0 \<and> isRaining (resetGame s) = False
   \<and> connections (resetGame s) = []"
  by (cases s) (simp add: startLevel_def resetGame_def Let_def)

text \<open>
  C7 (as stated) fails for the hovered node: a node hovered in one level is still the
  hovered node after the next level has started.
\<close>

theorem startLevel_keeps_hovered_node:
  "hoveredNodeId (store (run [StartLevel zero_source CHAPTER_1, SetHoveredNode (Some ''n1-0''),
      StartLevel zero_source NAME] initialWorld)) = Some ''n1-0''"
  by (simp add: on_store_def startLevel_def setHoveredNode_def Let_def)

theorem startLevel_replaces_witness:
  "startLevel zero_source SUN (setHoveredNode (Some ''mushroom'') initialState) =
     \<lparr>currentLevel = SUN, interactionMode = CLICK, narrativeIndex = 0,
      nodes = [], connections = [], envFeatures = snd generateSunEnv,
      playerPos = (0, 0.5, 5), cursorWorldPos = (0, 0.5, 5), isMouseDown = False,
      hoveredNodeId = Some ''mushroom'', draggingNodeId = None, isInteractiveHover = False,
      sequenceOrder = [], nextSequenceIndex = 0, tetheredNodeId = None, bubblesPopped = 0,
      fragmentsCollected = 0, playerScale = 1, leafHealth = 0, rainLevel = 0,
      isRaining = False, isLevelComplete = False\<rparr>"
  using startLevel_replaces [of zero_source SUN "setHoveredNode (Some ''mushroom'') initialState"]
  by (simp add: setHoveredNode_def initialState_def generateSunEnv_def)

section \<open>Absorbing fragments\<close>

lemma absorbFragment_fields:
  "envFeatures (absorbFragment i s) = filter (\<lambda>f. f_id f \<noteq> i) (envFeatures s)"
  "fragmentsCollected (absorbFragment i s) = fragmentsCollected s + 1"
  "isLevelComplete (absorbFragment i s) = (5 \<le> fragmentsCollected s + 1)"
  "narrativeIndex (absorbFragment i s)
     = (if 5 \<le> fragmentsCollected s + 1 then 1 else narrativeIndex s)"
  by (simp_all add: absorbFragment_def Let_def)

lemma fold_absorb_count:
  "fragmentsCollected (fold absorbFragment ids s) = fragmentsCollected s + length ids"
  by (induction ids arbitrary: s) (simp_all add: absorbFragment_fields)

lemma fold_absorb_complete:
  "ids \<noteq> [] \<Longrightarrow>
   isLevelComplete (fold absorbFragment ids s) = (5 \<le> fragmentsCollected s + length ids)"
proof (induction ids rule: rev_induct)
  case Nil
  then show ?case by simp
next
  case (snoc x xs)
  show ?case by (simp add: absorbFragment_fields fold_absorb_count)
qed

lemma fold_absorb_narrative:
  "narrativeIndex (fold absorbFragment ids s) =
     (if 5 \<le> fragmentsCollected s + length ids \<and> ids \<noteq> [] then 1 else narrativeIndex s)"
proof (induction ids rule: rev_induct)
  case Nil
  then show ?case by simp
next
  case (snoc x xs)
  then show ?case by (auto simp add: absorbFragment_fields fold_absorb_count)
qed

lemma string_of_nat_two_digits:
  "10 \<le> n \<Longrightarrow> n < 100 \<Longrightarrow> string_of_nat n = [digit_char (n div 10), digit_char (n mod 10)]"
  by (subst string_of_nat.simps) (simp add: string_of_nat_digit)

lemma name_ids:
  "map f_id (snd (generateNameEnv rnd))
     = [''bubble-0'', ''bubble-1'', ''bubble-2'', ''bubble-3'', ''bubble-4'', ''bubble-5'',
        ''bubble-6'', ''bubble-7'', ''bubble-8'', ''bubble-9'', ''bubble-10'', ''bubble-11'',
        ''bubble-12'', ''bubble-13'', ''bubble-14'']"
  by (simp add: generateNameEnv_def mkFeature_def upt_rec o_def string_of_nat_digit
      string_of_nat_two_digits digit_char_def)


lemma popBubble_keeps:
  "narrativeIndex (popBubble rnd i s) = narrativeIndex s"
  "fragmentsCollected (popBubble rnd i s) = fragmentsCollected s"
  "isLevelComplete (popBubble rnd i s) = isLevelComplete s"
  by (simp_all add: popBubble_def Let_def split: option.splits)

lemma popBubble_ids:
  assumes "i \<in> set (map f_id (envFeatures s))"
  shows "map f_id (envFeatures (popBubble rnd i s))
     = filter (\<lambda>x. x \<noteq> i) (map f_id (envFeatures s))
       @ [''frag-'' @ i @ ''-0'', ''frag-'' @ i @ ''-1'', ''frag-'' @ i @ ''-2'']"
proof -
  from assms have "find (\<lambda>f. f_id f = i) (envFeatures s) \<noteq> None"
    by (auto simp add: find_None_iff)
  then obtain b where "find (\<lambda>f. f_id f = i) (envFeatures s) = Some b" by blast
  then show ?thesis
    by (simp add: popBubble_def Let_def mkFeature_def filter_map o_def upt_rec
        string_of_nat_digit digit_char_def)
qed

lemma fold_absorb_env:
  "envFeatures (fold absorbFragment ids s)
     = filter (\<lambda>f. f_id f \<notin> set ids) (envFeatures s)"
proof (induction ids arbitrary: s)
  case Nil
  show ?case by simp
next
  case (Cons x xs)
  have "filter (\<lambda>f. f_id f \<notin> set xs) (filter (\<lambda>f. f_id f \<noteq> x) (envFeatures s))
      = filter (\<lambda>f. f_id f \<notin> set (x # xs)) (envFeatures s)"
    by (simp add: conj_commute)
  with Cons [of "absorbFragment x s"] show ?case
    by (simp add: absorbFragment_fields)
qed

text \<open>
  C8 (as amended). \<open>absorbFragment i\<close> removes the features with id \<open>i\<close>, adds one to
  \<open>fragmentsCollected\<close>, sets \<open>isLevelComplete\<close> to whether the new count is at least 5
  and, when it is, sets \<open>narrativeIndex\<close> to 1; it changes nothing else. A run of calls
  removes the features with the ids of the run and adds its length to the count. Counted
  from a level start, the level is complete after a run of calls exactly when the run has
  at least 5 calls, and the narrative index is then 1 and otherwise untouched. A further
  call at a count of 5 or more sets \<open>isLevelComplete\<close> and puts \<open>narrativeIndex\<close> at 1
  again; it leaves both as they are when they still have these values.
\<close>

theorem absorbFragment_five:
  "absorbFragment i s
     = s\<lparr>envFeatures := filter (\<lambda>f. f_id f \<noteq> i) (envFeatures s),
         fragmentsCollected := fragmentsCollected s + 1,
         isLevelComplete := (5 \<le> fragmentsCollected s + 1),
         narrativeIndex := (if 5 \<le> fragmentsCollected s + 1 then 1 else narrativeIndex s)\<rparr>
   \<and> envFeatures (fold absorbFragment ids s)
       = filter (\<lambda>f. f_id f \<notin> set ids) (envFeatures s)
   \<and> fragmentsCollected (fold absorbFragment ids s) = fragmentsCollected s + length ids
   \<and> (fragmentsCollected s = 0 \<and> \<not> isLevelComplete s
        \<longrightarrow> isLevelComplete (fold absorbFragment ids s) = (5 \<le> length ids)
          \<and> narrativeIndex (fold absorbFragment ids s)
              = (if 5 \<le> length ids then 1 else narrativeIndex s))
   \<and> (5 \<le> fragmentsCollected s
        \<longrightarrow> isLevelComplete (absorbFragment i s) \<and> narrativeIndex (absorbFragment i s) = 1)
   \<and> (5 \<le> fragmentsCollected s \<and> isLevelComplete s \<and> narrativeIndex s = 1
        \<longrightarrow> isLevelComplete (absorbFragment i s) = isLevelComplete s
          \<and> narrativeIndex (absorbFragment i s) = narrativeIndex s)"
proof -
  have one: "absorbFragment i s
     = s\<lparr>envFeatures := filter (\<lambda>f. f_id f \<noteq> i) (envFeatures s),
         fragmentsCollected := fragmentsCollected s + 1,
         isLevelComplete := (5 \<le> fragmentsCollected s + 1),
         narrativeIndex := (if 5 \<le> fragmentsCollected s + 1 then 1 else narrativeIndex s)\<rparr>"
    by (simp add: absorbFragment_def Let_def)
  have run: "fragmentsCollected s = 0 \<and> \<not> isLevelComplete s
        \<longrightarrow> isLevelComplete (fold absorbFragment ids s) = (5 \<le> length ids)
          \<and> narrativeIndex (fold absorbFragment ids s)
              = (if 5 \<le> length ids then 1 else narrativeIndex s)"
  proof
    assume h: "fragmentsCollected s = 0 \<and> \<not> isLevelComplete s"
    then have "isLevelComplete (fold absorbFragment ids s) = (5 \<le> length ids)"
      using fold_absorb_complete [of ids s] by (cases "ids = []") simp_all
    moreover from h have "narrativeIndex (fold absorbFragment ids s)
        = (if 5 \<le> length ids then 1 else narrativeIndex s)"
      by (auto simp add: fold_absorb_narrative)
    ultimately show "isLevelComplete (fold absorbFragment ids s) = (5 \<le> length ids)
          \<and> narrativeIndex (fold absorbFragment ids s)
              = (if 5 \<le> length ids then 1 else narrativeIndex s)"
      by (rule conjI)
  qed
  have further: "5 \<le> fragmentsCollected s
        \<longrightarrow> isLevelComplete (absorbFragment i s) \<and> narrativeIndex (absorbFragment i s) = 1"
    by (simp add: absorbFragment_fields)
  then have same: "5 \<le> fragmentsCollected s \<and> isLevelComplete s \<and> narrativeIndex s = 1
        \<longrightarrow> isLevelComplete (absorbFragment i s) = isLevelComplete s
          \<and> narrativeIndex (absorbFragment i s) = narrativeIndex s"
    by simp
  from one fold_absorb_env [of ids s] fold_absorb_count [of ids s] run further same
  show ?thesis by (intro conjI)
qed

lemma popped_store:
  "fragmentsCollected (store (run name_ops initialWorld)) = 0"
  "isLevelComplete (store (run name_ops initialWorld)) = False"
  "narrativeIndex (store (run name_ops initialWorld)) = 0"
  by (simp_all add: name_ops_def on_store_def popBubble_keeps startLevel_def Let_def)

lemma popped_ids:
  "map f_id (envFeatures (store (run name_ops initialWorld)))
     = [''bubble-2'', ''bubble-3'', ''bubble-4'', ''bubble-5'', ''bubble-6'', ''bubble-7'',
        ''bubble-8'', ''bubble-9'', ''bubble-10'', ''bubble-11'', ''bubble-12'', ''bubble-13'',
        ''bubble-14'', ''frag-bubble-0-0'', ''frag-bubble-0-1'', ''frag-bubble-0-2'',
        ''frag-bubble-1-0'', ''frag-bubble-1-1'', ''frag-bubble-1-2'']"
proof -
  let ?s0 = "startLevel zero_source NAME initialState"
  have e0: "map f_id (envFeatures ?s0)
     = [''bubble-0'', ''bubble-1'', ''bubble-2'', ''bubble-3'', ''bubble-4'', ''bubble-5'',
        ''bubble-6'', ''bubble-7'', ''bubble-8'', ''bubble-9'', ''bubble-10'', ''bubble-11'',
        ''bubble-12'', ''bubble-13'', ''bubble-14'']"
    by (simp add: startLevel_def Let_def name_ids)
  have e1: "map f_id (envFeatures (popBubble zero_source ''bubble-0'' ?s0))
     = [''bubble-1'', ''bubble-2'', ''bubble-3'', ''bubble-4'', ''bubble-5'',
        ''bubble-6'', ''bubble-7'', ''bubble-8'', ''bubble-9'', ''bubble-10'', ''bubble-11'',
        ''bubble-12'', ''bubble-13'', ''bubble-14'', ''frag-bubble-0-0'', ''frag-bubble-0-1'',
        ''frag-bubble-0-2'']"
    by (subst popBubble_ids) (simp_all add: e0)
  have e2: "map f_id (envFeatures (popBubble zero_source ''bubble-1''
        (popBubble zero_source ''bubble-0'' ?s0)))
     = [''bubble-2'', ''bubble-3'', ''bubble-4'', ''bubble-5'',
        ''bubble-6'', ''bubble-7'', ''bubble-8'', ''bubble-9'', ''bubble-10'', ''bubble-11'',
        ''bubble-12'', ''bubble-13'', ''bubble-14'', ''frag-bubble-0-0'', ''frag-bubble-0-1'',
        ''frag-bubble-0-2'', ''frag-bubble-1-0'', ''frag-bubble-1-1'', ''frag-bubble-1-2'']"
    by (subst popBubble_ids) (simp_all add: e1)
  then show ?thesis
    by (simp add: name_ops_def on_store_def initialWorld_def)
qed

text \<open>
  C8 (as stated) fails for a further call that does not follow the fifth directly: after
  five fragments and one \<open>advanceNarrative\<close> the narrative index is 2, and the sixth
  \<open>absorbFragment\<close> puts it back to 1.
\<close>

theorem absorb_after_advance_sets_narrative:
  "isLevelComplete (store (run (name_ops @ map AbsorbFragment five_frags) initialWorld))
   \<and> narrativeIndex (store (run (name_ops @ map AbsorbFragment five_frags) initialWorld)) = 1
   \<and> narrativeIndex (store (run (name_ops @ map AbsorbFragment five_frags
        @ [AdvanceNarrative]) initialWorld)) = 2
   \<and> narrativeIndex (store (run (name_ops @ map AbsorbFragment five_frags
        @ [AdvanceNarrative, AbsorbFragment ''frag-bubble-1-2'']) initialWorld)) = 1"
  by (simp add: name_ops_def five_frags_def on_store_def popBubble_keeps absorbFragment_fields
      advanceNarrative_def startLevel_def Let_def)

theorem absorbFragment_five_witness:
  "fragmentsCollected (store (run name_ops initialWorld)) = 0
   \<and> \<not> isLevelComplete (store (run name_ops initialWorld))
   \<and> ''frag-bubble-0-0'' \<in> set (map f_id (envFeatures (store (run name_ops initialWorld))))
   \<and> ''frag-bubble-0-0'' \<notin> set (map f_id (envFeatures
         (absorbFragment ''frag-bubble-0-0'' (store (run name_ops initialWorld)))))
   \<and> fragmentsCollected (absorbFragment ''frag-bubble-0-0'' (store (run name_ops initialWorld))) = 1
   \<and> map f_id (envFeatures (fold absorbFragment five_frags (store (run name_ops initialWorld))))
       = [''bubble-2'', ''bubble-3'', ''bubble-4'', ''bubble-5'', ''bubble-6'', ''bubble-7'',
          ''bubble-8'', ''bubble-9'', ''bubble-10'', ''bubble-11'', ''bubble-12'',
          ''bubble-13'', ''bubble-14'', ''frag-bubble-1-2'']
   \<and> \<not> isLevelComplete (fold absorbFragment (butlast five_frags) (store (run name_ops initialWorld)))
   \<and> isLevelComplete (fold absorbFragment five_frags (store (run name_ops initialWorld)))
   \<and> narrativeIndex (fold absorbFragment five_frags (store (run name_ops initialWorld))) = 1
   \<and> isLevelComplete (absorbFragment ''frag-bubble-1-2''
         (fold absorbFragment five_frags (store (run name_ops initialWorld))))
   \<and> narrativeIndex (absorbFragment ''frag-bubble-1-2''
         (fold absorbFragment five_frags (store (run name_ops initialWorld)))) = 1
   \<and> isLevelComplete (absorbFragment ''frag-bubble-1-2''
         (fold absorbFragment five_frags (store (run name_ops initialWorld))))
       = isLevelComplete (fold absorbFragment five_frags (store (run name_ops initialWorld)))
   \<and> narrativeIndex (absorbFragment ''frag-bubble-1-2''
         (fold absorbFragment five_frags (store (run name_ops initialWorld))))
       = narrativeIndex (fold absorbFragment five_frags (store (run name_ops initialWorld)))"
proof -
  let ?s = "store (run name_ops initialWorld)"
  let ?t = "fold absorbFragment five_frags ?s"
  have h: "fragmentsCollected ?s = 0 \<and> \<not> isLevelComplete ?s" by (simp add: popped_store)
  note one = absorbFragment_five [of "''frag-bubble-0-0''" ?s five_frags]
  note four = absorbFragment_five [of "''frag-bubble-0-0''" ?s "butlast five_frags"]
  note six = absorbFragment_five [of "''frag-bubble-1-2''" ?t five_frags]
  have m: "map f_id (filter (\<lambda>f. f_id f \<notin> A) fs) = filter (\<lambda>x. x \<notin> A) (map f_id fs)"
    for A fs by (simp add: filter_map o_def)
  from one have o1: "envFeatures (absorbFragment ''frag-bubble-0-0'' ?s)
      = filter (\<lambda>f. f_id f \<noteq> ''frag-bubble-0-0'') (envFeatures ?s)"
    "fragmentsCollected (absorbFragment ''frag-bubble-0-0'' ?s) = fragmentsCollected ?s + 1"
    by simp_all
  from one have o2: "envFeatures ?t = filter (\<lambda>f. f_id f \<notin> set five_frags) (envFeatures ?s)"
    and o3: "fragmentsCollected ?t = fragmentsCollected ?s + length five_frags"
    and o4: "fragmentsCollected ?s = 0 \<and> \<not> isLevelComplete ?s
        \<longrightarrow> isLevelComplete ?t = (5 \<le> length five_frags)
          \<and> narrativeIndex ?t = (if 5 \<le> length five_frags then 1 else narrativeIndex ?s)"
    by blast+
  from four have f4: "fragmentsCollected ?s = 0 \<and> \<not> isLevelComplete ?s
        \<longrightarrow> isLevelComplete (fold absorbFragment (butlast five_frags) ?s)
            = (5 \<le> length (butlast five_frags))"
    by blast
  from six have s5: "5 \<le> fragmentsCollected ?t
        \<longrightarrow> isLevelComplete (absorbFragment ''frag-bubble-1-2'' ?t)
          \<and> narrativeIndex (absorbFragment ''frag-bubble-1-2'' ?t) = 1"
    by blast
  have a1: "map f_id (envFeatures (absorbFragment ''frag-bubble-0-0'' ?s))
      = filter (\<lambda>x. x \<noteq> ''frag-bubble-0-0'') (map f_id (envFeatures ?s))"
    unfolding o1 by (simp add: filter_map o_def)
  have a2: "fragmentsCollected (absorbFragment ''frag-bubble-0-0'' ?s) = 1"
    using o1(2) h by simp
  have a3: "map f_id (envFeatures ?t)
       = [''bubble-2'', ''bubble-3'', ''bubble-4'', ''bubble-5'', ''bubble-6'', ''bubble-7'',
          ''bubble-8'', ''bubble-9'', ''bubble-10'', ''bubble-11'', ''bubble-12'',
          ''bubble-13'', ''bubble-14'', ''frag-bubble-1-2'']"
    unfolding o2 m popped_ids by (simp add: five_frags_def)
  from o3 o4 h have a4: "isLevelComplete ?t" "narrativeIndex ?t = 1" "fragmentsCollected ?t = 5"
    by (simp_all add: five_frags_def)
  from f4 h have a5: "\<not> isLevelComplete (fold absorbFragment (butlast five_frags) ?s)"
    by (simp add: five_frags_def)
  from s5 a4 have a6: "isLevelComplete (absorbFragment ''frag-bubble-1-2'' ?t)"
    "narrativeIndex (absorbFragment ''frag-bubble-1-2'' ?t) = 1"
    by simp_all
  from six have s6: "5 \<le> fragmentsCollected ?t \<and> isLevelComplete ?t \<and> narrativeIndex ?t = 1
        \<longrightarrow> isLevelComplete (absorbFragment ''frag-bubble-1-2'' ?t) = isLevelComplete ?t
          \<and> narrativeIndex (absorbFragment ''frag-bubble-1-2'' ?t) = narrativeIndex ?t"
    by blast
  with a4 have a7: "isLevelComplete (absorbFragment ''frag-bubble-1-2'' ?t) = isLevelComplete ?t"
    "narrativeIndex (absorbFragment ''frag-bubble-1-2'' ?t) = narrativeIndex ?t"
    by simp_all
  have "''frag-bubble-0-0'' \<in> set (map f_id (envFeatures ?s))"
    "''frag-bubble-0-0'' \<notin> set (map f_id (envFeatures (absorbFragment ''frag-bubble-0-0'' ?s)))"
    unfolding a1 popped_ids by simp_all
  with h a2 a3 a4(1,2) a5 a6 a7 show ?thesis by (intro conjI) simp_all
qed

section \<open>Completing a connection\<close>

lemma level1_ids:
  "map n_id (fst (generateLevel1Env rnd)) = [''n1-0'', ''n1-1'', ''n1-2'', ''n1-3'', ''n1-4'', ''n1-5'']"
  by (simp add: generateLevel1Env_def level1_positions_def mkNode_def string_of_nat_digit
      digit_char_def upt_rec)

lemma completeConnection_rejected:
  "\<not> accepts t s \<Longrightarrow> completeConnection t s = s\<lparr>draggingNodeId := None\<rparr>"
  by (cases "sourceId s") (auto simp add: completeConnection_def accepts_def Let_def)

lemma completeConnection_accepted:
  "accepts t s \<Longrightarrow>
   completeConnection t s =
     s\<lparr>connections := connections s @ [(the (sourceId s), t)],
       nodes := map (\<lambda>n. if n_id n = the (sourceId s) \<or> n_id n = t
                          then n\<lparr>connected := True\<rparr> else n) (nodes s),
       draggingNodeId := None, narrativeIndex := narrativeIndex s + 1,
       isLevelComplete :=
         (length (nodes s) \<le> length (remdups (flat (connections s @ [(the (sourceId s), t)])))
          \<and> 0 < length (nodes s)),
       nextSequenceIndex :=
         (if currentLevel s = CHAPTER_1 then nextSequenceIndex s + 1
          else nextSequenceIndex s)\<rparr>"
  by (cases "sourceId s") (auto simp add: completeConnection_def accepts_def Let_def)

lemma popBubble_absent:
  "i \<notin> f_id ` set (envFeatures s) \<Longrightarrow> popBubble rnd i s = s"
proof -
  assume "i \<notin> f_id ` set (envFeatures s)"
  then have "find (\<lambda>f. f_id f = i) (envFeatures s) = None"
    by (auto simp add: find_None_iff)
  then show ?thesis by (simp add: popBubble_def)
qed

text \<open>
  C3 (as amended). A rejected \<open>completeConnection\<close> changes nothing but the drag, which it
  clears: with no usable source (none, empty, or equal to the target), with an undirected
  edge that is already present, and in the sequence level with a pair other than the
  expected one. So it leaves the state as it is when no drag is active. \<open>popBubble\<close> with
  an id that no feature has leaves the state as it is.
\<close>

theorem rejected_actions:
  "(falsy (sourceId s) \<or> sourceId s = Some t
      \<longrightarrow> completeConnection t s = s\<lparr>draggingNodeId := None\<rparr>)
   \<and> (sourceId s = Some src \<and> ((src, t) \<in> set (connections s) \<or> (t, src) \<in> set (connections s))
      \<longrightarrow> completeConnection t s = s\<lparr>draggingNodeId := None\<rparr>)
   \<and> (currentLevel s = CHAPTER_1 \<and> sourceId s = Some src
       \<and> {Some src, Some t} \<noteq> {at_index (sequenceOrder s) (int (nextSequenceIndex s)),
                                 at_index (sequenceOrder s) (int (nextSequenceIndex s) + 1)}
      \<longrightarrow> completeConnection t s = s\<lparr>draggingNodeId := None\<rparr>)
   \<and> (draggingNodeId s = None \<longrightarrow> s\<lparr>draggingNodeId := None\<rparr> = s)
   \<and> (i \<notin> f_id ` set (envFeatures s) \<longrightarrow> popBubble rnd i s = s)"
proof -
  have a: "falsy (sourceId s) \<or> sourceId s = Some t \<Longrightarrow> \<not> accepts t s"
    by (cases "sourceId s") (auto simp add: accepts_def)
  have b: "sourceId s = Some src \<and> ((src, t) \<in> set (connections s) \<or> (t, src) \<in> set (connections s))
      \<Longrightarrow> \<not> accepts t s"
  proof -
    assume h: "sourceId s = Some src
      \<and> ((src, t) \<in> set (connections s) \<or> (t, src) \<in> set (connections s))"
    then have "list_ex (\<lambda>c. (fst c = src \<and> snd c = t) \<or> (fst c = t \<and> snd c = src))
        (connections s)"
      unfolding list_ex_iff by force
    with h show ?thesis by (simp add: accepts_def)
  qed
  have c: "currentLevel s = CHAPTER_1 \<and> sourceId s = Some src
       \<and> {Some src, Some t} \<noteq> {at_index (sequenceOrder s) (int (nextSequenceIndex s)),
                                 at_index (sequenceOrder s) (int (nextSequenceIndex s) + 1)}
      \<Longrightarrow> \<not> accepts t s"
    by (auto simp add: accepts_def doubleton_eq_iff)
  have d: "draggingNodeId s = None \<Longrightarrow> s\<lparr>draggingNodeId := None\<rparr> = s"
    by (cases s) simp
  show ?thesis
    using a b c d completeConnection_rejected [of t s] popBubble_absent [of i s rnd]
    by blast
qed

lemma repeat_edge_store:
  "draggingNodeId (store repeat_edge_world) = Some ''n1-0''"
  "connections (store repeat_edge_world) = [(''n1-0'', ''n1-1'')]"
  "currentLevel (store repeat_edge_world) = CHAPTER_1"
  "sequenceOrder (store repeat_edge_world)
     = [''n1-0'', ''n1-1'', ''n1-2'', ''n1-3'', ''n1-4'', ''n1-5'']"
  "nextSequenceIndex (store repeat_edge_world) = 1"
  by (simp_all add: repeat_edge_world_def on_store_def startLevel_def startDragConnection_def
      completeConnection_def sourceId_def at_index_def level1_ids Let_def flat_def)

text \<open>
  C3 (as stated) fails: repeating an edge while a drag is active clears the drag, so the
  state is not the one before; and \<open>absorbFragment\<close> with an id that no feature has still
  counts a fragment.
\<close>

theorem repeated_edge_clears_drag:
  "draggingNodeId (store repeat_edge_world) = Some ''n1-0''
   \<and> (''n1-0'', ''n1-1'') \<in> set (connections (store repeat_edge_world))
   \<and> store (exec (CompleteConnection ''n1-1'') repeat_edge_world) \<noteq> store repeat_edge_world
   \<and> fragmentsCollected (absorbFragment ''gone'' initialState) = 1
   \<and> ''gone'' \<notin> f_id ` set (envFeatures initialState)"
proof -
  have "draggingNodeId (store (exec (CompleteConnection ''n1-1'') repeat_edge_world)) = None"
    by (simp add: on_store_def completeConnection_def sourceId_def repeat_edge_store Let_def)
  then have "store (exec (CompleteConnection ''n1-1'') repeat_edge_world) \<noteq> store repeat_edge_world"
    using repeat_edge_store(1) by auto
  then show ?thesis
    by (simp add: repeat_edge_store absorbFragment_def initialState_def Let_def)
qed

theorem rejected_actions_witness:
  "falsy (sourceId initialState)
   \<and> completeConnection ''n1-1'' initialState = initialState
   \<and> popBubble zero_source ''bubble-0'' initialState = initialState
   \<and> sourceId (store repeat_edge_world) = Some ''n1-0''
   \<and> (''n1-0'', ''n1-1'') \<in> set (connections (store repeat_edge_world))
   \<and> completeConnection ''n1-1'' (store repeat_edge_world)
       = (store repeat_edge_world)\<lparr>draggingNodeId := None\<rparr>
   \<and> completeConnection ''n1-3'' (store repeat_edge_world)
       = (store repeat_edge_world)\<lparr>draggingNodeId := None\<rparr>"
proof -
  have src: "sourceId (store repeat_edge_world) = Some ''n1-0''"
    by (simp add: sourceId_def repeat_edge_store)
  have a: "falsy (sourceId initialState)" "draggingNodeId initialState = None"
    "''bubble-0'' \<notin> f_id ` set (envFeatures initialState)"
    by (simp_all add: sourceId_def initialState_def)
  have b: "(''n1-0'', ''n1-1'') \<in> set (connections (store repeat_edge_world))"
    by (simp add: repeat_edge_store)
  have c: "{Some ''n1-0'', Some ''n1-3''}
      \<noteq> {at_index (sequenceOrder (store repeat_edge_world))
            (int (nextSequenceIndex (store repeat_edge_world))),
          at_index (sequenceOrder (store repeat_edge_world))
            (int (nextSequenceIndex (store repeat_edge_world)) + 1)}"
    by (simp add: repeat_edge_store at_index_def doubleton_eq_iff)
  from a rejected_actions [of initialState "''n1-1''" "''n1-0''" "''bubble-0''" zero_source]
  have r1: "completeConnection ''n1-1'' initialState = initialState"
    "popBubble zero_source ''bubble-0'' initialState = initialState"
    by simp_all
  from src b rejected_actions [of "store repeat_edge_world" "''n1-1''" "''n1-0''"]
  have r2: "completeConnection ''n1-1'' (store repeat_edge_world)
       = (store repeat_edge_world)\<lparr>draggingNodeId := None\<rparr>"
    by blast
  from src c repeat_edge_store(3) rejected_actions [of "store repeat_edge_world" "''n1-3''" "''n1-0''"]
  have r3: "completeConnection ''n1-3'' (store repeat_edge_world)
       = (store repeat_edge_world)\<lparr>draggingNodeId := None\<rparr>"
    by blast
  from a(1) r1 src b r2 r3 show ?thesis by blast
qed

section \<open>The sequence level\<close>

text \<open>Which fields the operations other than a level start and a connection leave alone.\<close>

lemma exec_frame:
  assumes "\<not> is_start op" and "\<And>t. op \<noteq> CompleteConnection t"
  shows "currentLevel (store (exec op w)) = currentLevel (store w)"
    and "sequenceOrder (store (exec op w)) = sequenceOrder (store w)"
    and "nextSequenceIndex (store (exec op w)) = nextSequenceIndex (store w)"
    and "connections (store (exec op w)) = connections (store w)"
    and "nodes (store (exec op w)) = nodes (store w)"
  using assms
  by (cases op;
      simp add: on_store_def setter_defs popBubble_def absorbFragment_def growPlayer_def
        healLeaf_def selectVehicle_def triggerRain_def rainTick_def Let_def
        split: option.splits)+

lemma completeConnection_frame:
  "currentLevel (completeConnection t s) = currentLevel s"
  "sequenceOrder (completeConnection t s) = sequenceOrder s"
  "map n_id (nodes (completeConnection t s)) = map n_id (nodes s)"
  "tetheredNodeId (completeConnection t s) = tetheredNodeId s"
  "draggingNodeId (completeConnection t s) = None"
  by (cases "accepts t s";
      simp add: completeConnection_accepted completeConnection_rejected o_def)+

lemma completeConnection_changes:
  "connections (completeConnection t s) \<noteq> connections s \<longleftrightarrow> accepts t s"
  by (cases "accepts t s")
     (simp_all add: completeConnection_accepted completeConnection_rejected)

lemma accepts_sequence:
  assumes "accepts t s" and "currentLevel s = CHAPTER_1"
  shows "int (nextSequenceIndex s) + 1 < int (length (sequenceOrder s))"
    and "edge (the (sourceId s), t)
          = {sequenceOrder s ! nextSequenceIndex s, sequenceOrder s ! (nextSequenceIndex s + 1)}"
proof -
  obtain src where src: "sourceId s = Some src" using assms(1)
    by (cases "sourceId s") (simp_all add: accepts_def)
  let ?i = "int (nextSequenceIndex s)"
  from assms src have nf: "\<not> falsy (at_index (sequenceOrder s) (?i + 1))"
    and v: "(Some src = at_index (sequenceOrder s) ?i \<and> Some t = at_index (sequenceOrder s) (?i + 1))
          \<or> (Some src = at_index (sequenceOrder s) (?i + 1) \<and> Some t = at_index (sequenceOrder s) ?i)"
    by (simp_all add: accepts_def)
  from nf show lt: "?i + 1 < int (length (sequenceOrder s))"
    by (auto simp add: at_index_def split: if_splits)
  then have a: "at_index (sequenceOrder s) ?i = Some (sequenceOrder s ! nextSequenceIndex s)"
    and b: "at_index (sequenceOrder s) (?i + 1) = Some (sequenceOrder s ! (nextSequenceIndex s + 1))"
    by (simp_all add: at_index_def nat_add_distrib)
  from v show "edge (the (sourceId s), t)
          = {sequenceOrder s ! nextSequenceIndex s, sequenceOrder s ! (nextSequenceIndex s + 1)}"
    unfolding a b src edge_def by auto
qed

lemma seq_inv_completeConnection:
  assumes "seq_inv s"
  shows "seq_inv (completeConnection t s)"
proof (cases "accepts t s")
  case False
  with assms show ?thesis by (auto simp add: completeConnection_rejected seq_inv_def)
next
  case True
  show ?thesis
  proof (cases "currentLevel s = CHAPTER_1")
    case False
    then show ?thesis by (simp add: seq_inv_def completeConnection_frame)
  next
    case lvl: True
    note acc = accepts_sequence [OF True lvl]
    from assms lvl have inv:
      "sequenceOrder s = [''n1-0'', ''n1-1'', ''n1-2'', ''n1-3'', ''n1-4'', ''n1-5'']"
      "map n_id (nodes s) = sequenceOrder s"
      "length (connections s) = nextSequenceIndex s"
      "map edge (connections s)
         = map (\<lambda>j. {sequenceOrder s ! j, sequenceOrder s ! (j + 1)}) [0..<nextSequenceIndex s]"
      by (simp_all add: seq_inv_def)
    let ?s' = "completeConnection t s"
    have i: "nextSequenceIndex ?s' = nextSequenceIndex s + 1"
      "connections ?s' = connections s @ [(the (sourceId s), t)]"
      using True lvl by (simp_all add: completeConnection_accepted)
    from acc(1) have lt: "nextSequenceIndex s + 1 < length (sequenceOrder s)" by linarith
    have 1: "sequenceOrder ?s' = [''n1-0'', ''n1-1'', ''n1-2'', ''n1-3'', ''n1-4'', ''n1-5'']"
      using inv(1) by (simp add: completeConnection_frame)
    have 2: "map n_id (nodes ?s') = sequenceOrder ?s'"
      using inv(2) by (simp add: completeConnection_frame)
    have 3: "nextSequenceIndex ?s' < length (sequenceOrder ?s')"
      using lt by (simp add: i completeConnection_frame)
    have 4: "length (connections ?s') = nextSequenceIndex ?s'"
      using inv(3) by (simp add: i)
    have 5: "map edge (connections ?s')
         = map (\<lambda>j. {sequenceOrder ?s' ! j, sequenceOrder ?s' ! (j + 1)})
             [0..<nextSequenceIndex ?s']"
      using inv(4) acc(2) by (simp add: i completeConnection_frame)
    show ?thesis unfolding seq_inv_def using 1 2 3 4 5 by blast
  qed
qed

lemma level1_nodes:
  "map n_id (nodes (startLevel rnd CHAPTER_1 s)) = [''n1-0'', ''n1-1'', ''n1-2'', ''n1-3'', ''n1-4'', ''n1-5'']"
  "sequenceOrder (startLevel rnd CHAPTER_1 s) = [''n1-0'', ''n1-1'', ''n1-2'', ''n1-3'', ''n1-4'', ''n1-5'']"
  by (simp_all add: startLevel_def Let_def level1_ids)

lemma startLevel_fields:
  "currentLevel (startLevel rnd l s) = l"
  "connections (startLevel rnd l s) = []"
  "nextSequenceIndex (startLevel rnd l s) = 0"
  "draggingNodeId (startLevel rnd l s) = None"
  "tetheredNodeId (startLevel rnd l s) = None"
  "isLevelComplete (startLevel rnd l s) = False"
  "playerScale (startLevel rnd l s) = 1"
  "leafHealth (startLevel rnd l s) = 0"
  "rainLevel (startLevel rnd l s) = 0"
  by (simp_all add: startLevel_def Let_def)

lemma seq_inv_startLevel: "seq_inv (startLevel rnd l s)"
  by (cases "l = CHAPTER_1") (simp_all add: seq_inv_def startLevel_fields level1_nodes)

lemma seq_inv_exec:
  assumes "seq_inv (store w)"
  shows "seq_inv (store (exec op w))"
proof (cases "is_start op")
  case True
  then show ?thesis
    by (cases op) (simp_all add: on_store_def resetGame_def seq_inv_startLevel)
next
  case ns: False
  show ?thesis
  proof (cases "\<exists>t. op = CompleteConnection t")
    case True
    then show ?thesis using assms by (auto simp add: on_store_def seq_inv_completeConnection)
  next
    case False
    then have "\<And>t. op \<noteq> CompleteConnection t" by simp
    note fr = exec_frame [OF ns this]
    show ?thesis using assms unfolding seq_inv_def fr by auto
  qed
qed

lemma seq_inv_run: "seq_inv (store w) \<Longrightarrow> seq_inv (store (run ops w))"
  by (induction ops arbitrary: w) (simp_all add: seq_inv_exec)

lemma seq_inv_initial: "seq_inv (store initialWorld)"
  by (simp add: seq_inv_def initialWorld_def initialState_def)

text \<open>
  C10. At every state of a run from the initial store that is in the sequence level, the
  connection list has exactly \<open>nextSequenceIndex\<close> entries and they are, as unordered
  pairs and in this order, the consecutive pairs of the sequence order:
  \<open>{order[0], order[1]}\<close>, ..., \<open>{order[k-1], order[k]}\<close> for \<open>k = nextSequenceIndex\<close>.
\<close>

theorem sequence_prefix:
  assumes "s = store (run ops initialWorld)" and "currentLevel s = CHAPTER_1"
  shows "sequenceOrder s = [''n1-0'', ''n1-1'', ''n1-2'', ''n1-3'', ''n1-4'', ''n1-5'']
    \<and> length (connections s) = nextSequenceIndex s
    \<and> nextSequenceIndex s < length (sequenceOrder s)
    \<and> map edge (connections s)
        = map (\<lambda>j. {sequenceOrder s ! j, sequenceOrder s ! (j + 1)}) [0..<nextSequenceIndex s]"
  using assms seq_inv_run [OF seq_inv_initial, of ops] by (auto simp add: seq_inv_def)

text \<open>
  C4. At every state of a run from the initial store that is in the sequence level,
  \<open>nextSequenceIndex\<close> is at most \<open>sequenceOrder.length - 1\<close>; an operation other than a
  level start either leaves connections and index as they are or appends one edge and adds
  exactly 1 to the index; and a \<open>completeConnection\<close> whose unordered pair is not the
  expected pair \<open>{order[i], order[i+1]}\<close> leaves both unchanged.
\<close>

theorem sequence_index:
  assumes "w = run ops initialWorld" and "currentLevel (store w) = CHAPTER_1"
  shows "int (nextSequenceIndex (store w)) \<le> int (length (sequenceOrder (store w))) - 1
    \<and> (\<not> is_start op \<longrightarrow>
         (connections (store (exec op w)) = connections (store w)
            \<and> nextSequenceIndex (store (exec op w)) = nextSequenceIndex (store w))
         \<or> (\<exists>e. connections (store (exec op w)) = connections (store w) @ [e]
              \<and> nextSequenceIndex (store (exec op w)) = nextSequenceIndex (store w) + 1))
    \<and> (sourceId (store w) = Some src
        \<and> {Some src, Some t}
            \<noteq> {at_index (sequenceOrder (store w)) (int (nextSequenceIndex (store w))),
               at_index (sequenceOrder (store w)) (int (nextSequenceIndex (store w)) + 1)}
        \<longrightarrow> connections (store (exec (CompleteConnection t) w)) = connections (store w)
          \<and> nextSequenceIndex (store (exec (CompleteConnection t) w))
              = nextSequenceIndex (store w))"
proof -
  have inv: "seq_inv (store w)"
    using assms(1) seq_inv_run [OF seq_inv_initial, of ops] by simp
  with assms(2) have a: "int (nextSequenceIndex (store w)) \<le> int (length (sequenceOrder (store w))) - 1"
    by (auto simp add: seq_inv_def)
  have b: "\<not> is_start op \<longrightarrow>
         (connections (store (exec op w)) = connections (store w)
            \<and> nextSequenceIndex (store (exec op w)) = nextSequenceIndex (store w))
         \<or> (\<exists>e. connections (store (exec op w)) = connections (store w) @ [e]
              \<and> nextSequenceIndex (store (exec op w)) = nextSequenceIndex (store w) + 1)"
  proof (cases "\<exists>t. op = CompleteConnection t")
    case True
    then obtain t' where op: "op = CompleteConnection t'" by blast
    show ?thesis
      unfolding op using assms(2)
      by (cases "accepts t' (store w)")
         (simp_all add: on_store_def completeConnection_accepted completeConnection_rejected)
  next
    case False
    then have "\<And>t. op \<noteq> CompleteConnection t" by simp
    then show ?thesis using exec_frame [of op w] by simp
  qed
  have c: "sourceId (store w) = Some src
        \<and> {Some src, Some t}
            \<noteq> {at_index (sequenceOrder (store w)) (int (nextSequenceIndex (store w))),
               at_index (sequenceOrder (store w)) (int (nextSequenceIndex (store w)) + 1)}
        \<longrightarrow> connections (store (exec (CompleteConnection t) w)) = connections (store w)
          \<and> nextSequenceIndex (store (exec (CompleteConnection t) w))
              = nextSequenceIndex (store w)"
  proof
    assume h: "sourceId (store w) = Some src
        \<and> {Some src, Some t}
            \<noteq> {at_index (sequenceOrder (store w)) (int (nextSequenceIndex (store w))),
               at_index (sequenceOrder (store w)) (int (nextSequenceIndex (store w)) + 1)}"
    with assms(2) have "\<not> accepts t (store w)"
      by (auto simp add: accepts_def doubleton_eq_iff)
    then show "connections (store (exec (CompleteConnection t) w)) = connections (store w)
          \<and> nextSequenceIndex (store (exec (CompleteConnection t) w))
              = nextSequenceIndex (store w)"
      by (simp add: on_store_def completeConnection_rejected)
  qed
  from a b c show ?thesis by blast
qed


lemma drag_world_store:
  "currentLevel (store drag_world) = CHAPTER_1"
  "draggingNodeId (store drag_world) = Some ''n1-0''"
  "connections (store drag_world) = []"
  "nextSequenceIndex (store drag_world) = 0"
  "sequenceOrder (store drag_world) = [''n1-0'', ''n1-1'', ''n1-2'', ''n1-3'', ''n1-4'', ''n1-5'']"
  by (simp_all add: drag_world_def on_store_def startDragConnection_def startLevel_fields
      level1_nodes startLevel_def Let_def level1_ids)

theorem sequence_index_witness:
  "currentLevel (store drag_world) = CHAPTER_1
   \<and> nextSequenceIndex (store drag_world) = 0
   \<and> int (nextSequenceIndex (store drag_world))
       \<le> int (length (sequenceOrder (store drag_world))) - 1
   \<and> connections (store (exec (CompleteConnection ''n1-2'') drag_world)) = []
   \<and> nextSequenceIndex (store (exec (CompleteConnection ''n1-2'') drag_world)) = 0
   \<and> connections (store (exec (CompleteConnection ''n1-1'') drag_world)) = [(''n1-0'', ''n1-1'')]
   \<and> nextSequenceIndex (store (exec (CompleteConnection ''n1-1'') drag_world)) = 1"
proof -
  have src: "sourceId (store drag_world) = Some ''n1-0''"
    by (simp add: sourceId_def drag_world_store)
  have pair: "{Some ''n1-0'', Some ''n1-2''}
      \<noteq> {at_index (sequenceOrder (store drag_world)) (int (nextSequenceIndex (store drag_world))),
         at_index (sequenceOrder (store drag_world))
           (int (nextSequenceIndex (store drag_world)) + 1)}"
    by (simp add: drag_world_store at_index_def doubleton_eq_iff)
  have acc: "connections (store (exec (CompleteConnection ''n1-1'') drag_world)) \<noteq> connections (store drag_world)"
    by (simp add: on_store_def completeConnection_def sourceId_def drag_world_store at_index_def
        Let_def)
  note th = sequence_index [OF drag_world_def drag_world_store(1),
      of "CompleteConnection ''n1-1''" "''n1-0''" "''n1-2''"]
  from th src pair have rej:
    "connections (store (exec (CompleteConnection ''n1-2'') drag_world)) = connections (store drag_world)"
    "nextSequenceIndex (store (exec (CompleteConnection ''n1-2'') drag_world))
       = nextSequenceIndex (store drag_world)"
    by blast+
  from th acc have "nextSequenceIndex (store (exec (CompleteConnection ''n1-1'') drag_world))
       = nextSequenceIndex (store drag_world) + 1"
    by auto
  moreover have "connections (store (exec (CompleteConnection ''n1-1'') drag_world)) = [(''n1-0'', ''n1-1'')]"
    by (simp add: on_store_def completeConnection_def sourceId_def drag_world_store at_index_def
        Let_def)
  moreover from th have "int (nextSequenceIndex (store drag_world))
       \<le> int (length (sequenceOrder (store drag_world))) - 1" by blast
  ultimately show ?thesis using rej by (simp add: drag_world_store)
qed

lemma two_edges_store:
  "currentLevel (store (run two_edges_ops initialWorld)) = CHAPTER_1"
  "connections (store (run two_edges_ops initialWorld)) = [(''n1-0'', ''n1-1''), (''n1-1'', ''n1-2'')]"
  by (simp_all add: two_edges_ops_def on_store_def startDragConnection_def startLevel_def
      completeConnection_def sourceId_def at_index_def level1_ids Let_def flat_def)

theorem sequence_prefix_witness:
  "currentLevel (store (run two_edges_ops initialWorld)) = CHAPTER_1
   \<and> nextSequenceIndex (store (run two_edges_ops initialWorld)) = 2
   \<and> connections (store (run two_edges_ops initialWorld))
       = [(''n1-0'', ''n1-1''), (''n1-1'', ''n1-2'')]
   \<and> map edge (connections (store (run two_edges_ops initialWorld)))
       = [{''n1-0'', ''n1-1''}, {''n1-1'', ''n1-2''}]"
proof -
  note th = sequence_prefix [OF refl two_edges_store(1)]
  from th have "nextSequenceIndex (store (run two_edges_ops initialWorld)) = 2"
    by (simp add: two_edges_store)
  with th show ?thesis by (simp add: two_edges_store edge_def)
qed


section \<open>Connections and node ids\<close>

lemma node_ids_completeConnection: "node_ids (completeConnection t s) = node_ids s"
proof -
  have "set (map n_id (nodes (completeConnection t s))) = set (map n_id (nodes s))"
    by (simp only: completeConnection_frame)
  then show ?thesis by (simp add: node_ids_def)
qed

lemma exec_frame_ids:
  assumes "\<not> is_start op" and "\<And>t. op \<noteq> CompleteConnection t"
  shows "node_ids (store (exec op w)) = node_ids (store w)"
  using exec_frame(5) [OF assms] by (simp add: node_ids_def)

lemma exec_frame_drag:
  assumes "\<not> is_start op" and "\<And>t. op \<noteq> CompleteConnection t"
    and "\<And>i. op \<noteq> StartDragConnection i" and "op \<noteq> CancelDrag"
    and "\<And>i. op \<noteq> SetTetheredNode i"
  shows "draggingNodeId (store (exec op w)) = draggingNodeId (store w)"
    and "tetheredNodeId (store (exec op w)) = tetheredNodeId (store w)"
  using assms
  by (cases op;
      simp add: on_store_def setter_defs popBubble_def absorbFragment_def growPlayer_def
        healLeaf_def selectVehicle_def triggerRain_def rainTick_def Let_def
        split: option.splits)+

lemma ids_inv_startLevel: "ids_inv (startLevel rnd l s)"
  by (simp add: ids_inv_def startLevel_fields flat_def)

lemma ids_inv_completeConnection:
  assumes "ids_inv s" and "t \<in> node_ids s"
  shows "ids_inv (completeConnection t s)"
proof (cases "accepts t s")
  case False
  with assms show ?thesis
    by (auto simp add: completeConnection_rejected ids_inv_def node_ids_def split: option.splits)
next
  case True
  then obtain src where src: "sourceId s = Some src"
    by (cases "sourceId s") (simp_all add: accepts_def)
  with assms(1) have "src \<in> node_ids s"
    by (auto simp add: ids_inv_def sourceId_def split: if_splits)
  with assms src have c: "set (flat (connections s @ [(the (sourceId s), t)])) \<subseteq> node_ids s"
    by (simp add: ids_inv_def flat_def)
  have conn: "connections (completeConnection t s) = connections s @ [(the (sourceId s), t)]"
    using True by (simp add: completeConnection_accepted)
  show ?thesis
    unfolding ids_inv_def node_ids_completeConnection completeConnection_frame conn
    using assms(1) c by (simp add: ids_inv_def)
qed

lemma ids_inv_exec:
  assumes "ids_inv (store w)" and "names_nodes op (store w)"
  shows "ids_inv (store (exec op w))"
proof (cases "is_start op \<or> (\<exists>t. op = CompleteConnection t) \<or> (\<exists>i. op = StartDragConnection i)
    \<or> op = CancelDrag \<or> (\<exists>i. op = SetTetheredNode i)")
  case False
  then have h: "\<not> is_start op" "\<And>t. op \<noteq> CompleteConnection t"
    "\<And>i. op \<noteq> StartDragConnection i" "op \<noteq> CancelDrag" "\<And>i. op \<noteq> SetTetheredNode i"
    by simp_all
  show ?thesis
    using assms(1)
    unfolding ids_inv_def exec_frame_ids [OF h(1,2)] exec_frame(4) [OF h(1,2)]
      exec_frame_drag [OF h]
    by simp
next
  case True
  then consider (start) "is_start op" | (conn) t where "op = CompleteConnection t"
    | (drag) i where "op = StartDragConnection i" | (cancel) "op = CancelDrag"
    | (tether) i where "op = SetTetheredNode i"
    by blast
  then show ?thesis
  proof cases
    case start
    then show ?thesis
      by (cases op) (simp_all add: on_store_def resetGame_def ids_inv_startLevel)
  next
    case conn
    with assms show ?thesis by (simp add: on_store_def ids_inv_completeConnection)
  next
    case drag
    with assms show ?thesis
      by (auto simp add: on_store_def startDragConnection_def ids_inv_def node_ids_def
          split: option.splits)
  next
    case cancel
    with assms show ?thesis
      by (auto simp add: on_store_def cancelDrag_def ids_inv_def node_ids_def
          split: option.splits)
  next
    case tether
    with assms show ?thesis
      by (cases i) (auto simp add: on_store_def setTetheredNode_def ids_inv_def node_ids_def
          split: option.splits)
  qed
qed

lemma ids_inv_run:
  "ids_inv (store w) \<Longrightarrow> run_names_nodes ops w \<Longrightarrow> ids_inv (store (run ops w))"
  by (induction ops arbitrary: w) (simp_all add: ids_inv_exec)

lemma ids_inv_initial: "ids_inv (store initialWorld)"
  by (simp add: ids_inv_def initialWorld_def initialState_def flat_def)

text \<open>
  C6 (as amended). In a run from the initial store in which every id handed to
  \<open>startDragConnection\<close>, \<open>setTetheredNode\<close> and \<open>completeConnection\<close> is the id of a node
  of the level at that moment, every id in the connection list is the id of a node of the
  current level.
\<close>

theorem connections_name_nodes:
  assumes "run_names_nodes ops initialWorld"
  shows "set (flat (connections (store (run ops initialWorld))))
           \<subseteq> node_ids (store (run ops initialWorld))"
  using ids_inv_run [OF ids_inv_initial assms] by (simp add: ids_inv_def)

lemma connection_level_nodes:
  "map n_id (nodes (startLevel rnd CONNECTION s))
     = [''n2-low-1'', ''n2-low-2'', ''n2-mid'', ''n2-high-1'', ''n2-high-2'']"
  by (simp add: startLevel_def Let_def generateConnectionEnv_def mkNode_def)


lemma connection_level_node_ids:
  "node_ids (startLevel rnd CONNECTION s)
     = {''n2-low-1'', ''n2-low-2'', ''n2-mid'', ''n2-high-1'', ''n2-high-2''}"
proof -
  have "node_ids (startLevel rnd CONNECTION s) = set (map n_id (nodes (startLevel rnd CONNECTION s)))"
    by (simp add: node_ids_def)
  then show ?thesis unfolding connection_level_nodes by simp
qed

text \<open>
  C6 (as stated) fails: the store takes any id as tether (or drag), and a connection from
  it to a node is recorded although the source is no node of the level.
\<close>

theorem stray_source_is_connected:
  "connections (store (run stray_ops initialWorld)) = [(''ghost'', ''n2-mid'')]
   \<and> ''ghost'' \<notin> node_ids (store (run stray_ops initialWorld))"
proof -
  have a: "connections (store (run stray_ops initialWorld)) = [(''ghost'', ''n2-mid'')]"
    by (simp add: stray_ops_def on_store_def setTetheredNode_def completeConnection_def
        sourceId_def startLevel_fields Let_def)
  have "node_ids (store (run stray_ops initialWorld))
      = node_ids (startLevel zero_source CONNECTION initialState)"
    by (simp add: stray_ops_def on_store_def node_ids_completeConnection initialWorld_def)
       (simp add: node_ids_def setTetheredNode_def)
  then have "''ghost'' \<notin> node_ids (store (run stray_ops initialWorld))"
    by (simp add: connection_level_node_ids)
  with a show ?thesis by simp
qed

theorem connections_name_nodes_witness:
  "run_names_nodes star_ops initialWorld
   \<and> connections (store (run star_ops initialWorld))
       = [(''n2-mid'', ''n2-low-1''), (''n2-mid'', ''n2-low-2'')]
   \<and> set (flat (connections (store (run star_ops initialWorld))))
       \<subseteq> node_ids (store (run star_ops initialWorld))"
proof -
  have ok: "run_names_nodes star_ops initialWorld"
    by (simp add: star_ops_def on_store_def node_ids_completeConnection
        connection_level_node_ids initialWorld_def)
       (simp add: node_ids_def setTetheredNode_def startDragConnection_def
        connection_level_node_ids [unfolded node_ids_def])
  have c: "connections (store (run star_ops initialWorld))
       = [(''n2-mid'', ''n2-low-1''), (''n2-mid'', ''n2-low-2'')]"
    by (simp add: star_ops_def on_store_def setTetheredNode_def completeConnection_def
        sourceId_def startLevel_fields startDragConnection_def cancelDrag_def Let_def)
  from ok c connections_name_nodes [OF ok] show ?thesis by simp
qed

lemma coverage_five:
  assumes n: "map n_id (nodes s) = [''n2-low-1'', ''n2-low-2'', ''n2-mid'', ''n2-high-1'', ''n2-high-2'']"
    and sub: "A \<subseteq> node_ids s"
  shows "(length (nodes s) \<le> card A \<and> 0 < length (nodes s)) = (node_ids s \<subseteq> A)"
proof -
  have len: "length (nodes s) = 5"
    using arg_cong [OF n, of length] by simp
  have ids: "node_ids s = set [''n2-low-1'', ''n2-low-2'', ''n2-mid'', ''n2-high-1'', ''n2-high-2'']"
    unfolding n [symmetric] by (simp add: node_ids_def)
  have card: "card (node_ids s) = 5" unfolding ids by simp
  have fin: "finite (node_ids s)" unfolding ids by simp
  show ?thesis
  proof
    assume "length (nodes s) \<le> card A \<and> 0 < length (nodes s)"
    then have "card (node_ids s) \<le> card A" using len card by simp
    with fin sub have "A = node_ids s" by (rule card_seteq)
    then show "node_ids s \<subseteq> A" by simp
  next
    assume "node_ids s \<subseteq> A"
    with sub have "A = node_ids s" by blast
    then show "length (nodes s) \<le> card A \<and> 0 < length (nodes s)"
      using len card by simp
  qed
qed

text \<open>
  C2 (as amended). An accepted connection sets \<open>isLevelComplete\<close> to: the number of
  distinct ids in the edges is at least the number of nodes, and there is a node. For the
  five nodes of the tether level, and when every id in the edges is a node id, this is
  exactly: every one of the five ids occurs in an edge (whatever the components of the
  graph are).
\<close>

theorem coverage_completion:
  assumes "connections (completeConnection t s) \<noteq> connections s"
  shows "isLevelComplete (completeConnection t s)
      = (length (nodes (completeConnection t s))
           \<le> card (set (flat (connections (completeConnection t s))))
         \<and> 0 < length (nodes (completeConnection t s)))
    \<and> (map n_id (nodes s)
          = [''n2-low-1'', ''n2-low-2'', ''n2-mid'', ''n2-high-1'', ''n2-high-2'']
        \<and> set (flat (connections (completeConnection t s))) \<subseteq> node_ids s
        \<longrightarrow> isLevelComplete (completeConnection t s)
            = (node_ids s \<subseteq> set (flat (connections (completeConnection t s)))))"
proof -
  from assms have acc: "accepts t s" by (simp add: completeConnection_changes)
  have a: "isLevelComplete (completeConnection t s)
      = (length (nodes s) \<le> card (set (flat (connections (completeConnection t s))))
         \<and> 0 < length (nodes s))"
    using acc by (simp add: completeConnection_accepted List.card_set)
  have l: "length (nodes (completeConnection t s)) = length (nodes s)"
    using acc by (simp add: completeConnection_accepted)
  have b: "map n_id (nodes s)
          = [''n2-low-1'', ''n2-low-2'', ''n2-mid'', ''n2-high-1'', ''n2-high-2'']
        \<and> set (flat (connections (completeConnection t s))) \<subseteq> node_ids s
        \<longrightarrow> isLevelComplete (completeConnection t s)
            = (node_ids s \<subseteq> set (flat (connections (completeConnection t s))))"
  proof
    assume h: "map n_id (nodes s)
          = [''n2-low-1'', ''n2-low-2'', ''n2-mid'', ''n2-high-1'', ''n2-high-2'']
        \<and> set (flat (connections (completeConnection t s))) \<subseteq> node_ids s"
    then have "(length (nodes s) \<le> card (set (flat (connections (completeConnection t s))))
         \<and> 0 < length (nodes s))
        = (node_ids s \<subseteq> set (flat (connections (completeConnection t s))))"
      by (intro coverage_five) simp_all
    with a show "isLevelComplete (completeConnection t s)
            = (node_ids s \<subseteq> set (flat (connections (completeConnection t s))))"
      by (simp only:)
  qed
  from a b show ?thesis unfolding l by (rule conjI)
qed

text \<open>
  C2 (as stated) fails for the tether level: five distinct ids in the edges complete the
  level although none of them is one of the five nodes.
\<close>

theorem coverage_counts_stray_ids:
  "isLevelComplete (store (run ghost_ops initialWorld))
   \<and> connections (store (run ghost_ops initialWorld))
       = [(''a'', ''b''), (''c'', ''d''), (''e'', ''a'')]
   \<and> map n_id (nodes (store (run ghost_ops initialWorld)))
       = [''n2-low-1'', ''n2-low-2'', ''n2-mid'', ''n2-high-1'', ''n2-high-2'']
   \<and> ''n2-mid'' \<notin> set (flat (connections (store (run ghost_ops initialWorld))))"
  by (simp add: ghost_ops_def on_store_def setTetheredNode_def completeConnection_def
      sourceId_def startLevel_def generateConnectionEnv_def mkNode_def Let_def flat_def)

lemma forest_store:
  "tetheredNodeId (store (run forest_ops initialWorld)) = Some ''n2-high-2''"
  "currentLevel (store (run forest_ops initialWorld)) = CONNECTION"
  "connections (store (run forest_ops initialWorld))
     = [(''n2-low-1'', ''n2-low-2''), (''n2-mid'', ''n2-high-1'')]"
  "map n_id (nodes (store (run forest_ops initialWorld)))
     = [''n2-low-1'', ''n2-low-2'', ''n2-mid'', ''n2-high-1'', ''n2-high-2'']"
  "isLevelComplete (store (run forest_ops initialWorld)) = False"
  by (simp_all add: forest_ops_def on_store_def setTetheredNode_def completeConnection_def
      sourceId_def startLevel_def generateConnectionEnv_def mkNode_def Let_def flat_def)

theorem coverage_completion_witness:
  "connections (completeConnection ''n2-mid'' (store (run forest_ops initialWorld)))
     = [(''n2-low-1'', ''n2-low-2''), (''n2-mid'', ''n2-high-1''), (''n2-high-2'', ''n2-mid'')]
   \<and> \<not> isLevelComplete (store (run forest_ops initialWorld))
   \<and> isLevelComplete (completeConnection ''n2-mid'' (store (run forest_ops initialWorld)))
   \<and> node_ids (store (run forest_ops initialWorld))
       \<subseteq> set (flat (connections
           (completeConnection ''n2-mid'' (store (run forest_ops initialWorld)))))"
proof -
  let ?s = "store (run forest_ops initialWorld)"
  have c: "connections (completeConnection ''n2-mid'' ?s)
     = [(''n2-low-1'', ''n2-low-2''), (''n2-mid'', ''n2-high-1''), (''n2-high-2'', ''n2-mid'')]"
    by (simp add: completeConnection_def sourceId_def forest_store Let_def)
  then have ch: "connections (completeConnection ''n2-mid'' ?s) \<noteq> connections ?s"
    by (simp add: forest_store)
  have ids: "node_ids ?s = {''n2-low-1'', ''n2-low-2'', ''n2-mid'', ''n2-high-1'', ''n2-high-2''}"
    using arg_cong [OF forest_store(4), of set] by (simp add: node_ids_def)
  have sub: "set (flat (connections (completeConnection ''n2-mid'' ?s))) \<subseteq> node_ids ?s"
    unfolding c ids by (simp add: flat_def)
  have cov: "node_ids ?s \<subseteq> set (flat (connections (completeConnection ''n2-mid'' ?s)))"
    unfolding c ids by (simp add: flat_def)
  from coverage_completion [OF ch] forest_store(4) sub cov
  have "isLevelComplete (completeConnection ''n2-mid'' ?s)" by blast
  with c cov show ?thesis by (simp add: forest_store)
qed


section \<open>Completion flag and gauges\<close>

lemmas op_defs =
  on_store_def setter_defs popBubble_def absorbFragment_def growPlayer_def healLeaf_def
  selectVehicle_def triggerRain_def rainTick_def

lemma coverage_grows:
  "length (remdups (flat cs)) \<le> length (remdups (flat (cs @ [c])))"
proof -
  have "card (set (flat cs)) \<le> card (set (flat (cs @ [c])))"
    by (rule card_mono) (auto simp add: flat_def)
  then show ?thesis by (simp only: List.card_set)
qed

lemma complete_kept:
  assumes "isLevelComplete (store w)" and "\<not> is_start op" and "own_condition op (store w)"
  shows "isLevelComplete (store (exec op w))"
proof (cases op)
  case (CompleteConnection t)
  show ?thesis
  proof (cases "accepts t (store w)")
    case True
    have "length (nodes (store w))
        \<le> length (remdups (flat (connections (store w) @ [(the (sourceId (store w)), t)])))"
      using assms(3) coverage_grows [of "connections (store w)"] CompleteConnection
      by (simp del: remdups_append) (meson le_trans)
    with assms(3) True show ?thesis
      unfolding CompleteConnection by (simp add: on_store_def completeConnection_accepted)
  next
    case False
    with assms(1) show ?thesis
      unfolding CompleteConnection by (simp add: on_store_def completeConnection_rejected)
  qed
qed (use assms in \<open>simp_all add: op_defs Let_def split: option.splits\<close>)

text \<open>
  C1 (as amended). \<open>isLevelComplete\<close> is false right after \<open>startLevel\<close> and \<open>resetGame\<close>.
  It is not latched: \<open>absorbFragment\<close> writes whether the new count is at least 5,
  \<open>growPlayer\<close> whether the new scale exceeds 8, \<open>healLeaf\<close> whether the new health is at
  least 100, an accepted \<open>completeConnection\<close> the coverage of the new connection list, and
  a rejected one leaves it alone; \<open>selectVehicle\<close> with the winning choice and a rain
  tick that stops its interval set it to true; every other operation leaves it as it is.
  Within a level it stays true under every operation other than a level start provided
  that, for the four that overwrite it, the operation's own condition held before the call
  and the amount is not negative.
\<close>

theorem completion_steps:
  "\<not> isLevelComplete (store (exec (StartLevel rnd l) w))
   \<and> \<not> isLevelComplete (store (exec ResetGame w))
   \<and> isLevelComplete (store (exec (AbsorbFragment i) w)) = (5 \<le> fragmentsCollected (store w) + 1)
   \<and> isLevelComplete (store (exec (GrowPlayer a) w)) = (8 < min (playerScale (store w) + a) 10)
   \<and> isLevelComplete (store (exec (HealLeaf a) w)) = (100 \<le> min (leafHealth (store w) + a) 100)
   \<and> (connections (store (exec (CompleteConnection t) w)) \<noteq> connections (store w)
        \<longrightarrow> isLevelComplete (store (exec (CompleteConnection t) w))
            = (length (nodes (store w))
                 \<le> card (set (flat (connections (store (exec (CompleteConnection t) w)))))
               \<and> 0 < length (nodes (store w))))
   \<and> (connections (store (exec (CompleteConnection t) w)) = connections (store w)
        \<longrightarrow> isLevelComplete (store (exec (CompleteConnection t) w)) = isLevelComplete (store w))
   \<and> isLevelComplete (store (exec (SelectVehicle ty) w))
       = (ty = ''TEAR'' \<or> isLevelComplete (store w))
   \<and> isLevelComplete (store (exec (Tick k) w))
       = ((k < length (intervals w) \<and> \<not> cleared (intervals w ! k) \<and> 20 \<le> rainLevel (store w))
          \<or> isLevelComplete (store w))
   \<and> (\<not> writes_flag op \<longrightarrow> isLevelComplete (store (exec op w)) = isLevelComplete (store w))
   \<and> (isLevelComplete (store w) \<and> \<not> is_start op \<and> own_condition op (store w)
        \<longrightarrow> isLevelComplete (store (exec op w)))"
proof -
  have sel: "isLevelComplete (store (exec (SelectVehicle ty) w))
       = (ty = ''TEAR'' \<or> isLevelComplete (store w))"
    by (simp add: on_store_def selectVehicle_def)
  have tick: "isLevelComplete (store (exec (Tick k) w))
       = ((k < length (intervals w) \<and> \<not> cleared (intervals w ! k) \<and> 20 \<le> rainLevel (store w))
          \<or> isLevelComplete (store w))"
    by (auto simp add: rainTick_def Let_def)
  have frame: "\<not> writes_flag op \<longrightarrow> isLevelComplete (store (exec op w)) = isLevelComplete (store w)"
    by (cases op) (simp_all add: on_store_def setter_defs popBubble_def triggerRain_def Let_def
        split: option.splits)
  have acc: "connections (store (exec (CompleteConnection t) w)) \<noteq> connections (store w)
        \<longrightarrow> isLevelComplete (store (exec (CompleteConnection t) w))
            = (length (nodes (store w))
                 \<le> card (set (flat (connections (store (exec (CompleteConnection t) w)))))
               \<and> 0 < length (nodes (store w)))"
  proof
    assume "connections (store (exec (CompleteConnection t) w)) \<noteq> connections (store w)"
    then have "accepts t (store w)"
      by (simp add: on_store_def completeConnection_changes)
    then show "isLevelComplete (store (exec (CompleteConnection t) w))
            = (length (nodes (store w))
                 \<le> card (set (flat (connections (store (exec (CompleteConnection t) w)))))
               \<and> 0 < length (nodes (store w)))"
      by (simp add: on_store_def completeConnection_accepted List.card_set)
  qed
  have rej: "connections (store (exec (CompleteConnection t) w)) = connections (store w)
        \<longrightarrow> isLevelComplete (store (exec (CompleteConnection t) w)) = isLevelComplete (store w)"
  proof
    assume "connections (store (exec (CompleteConnection t) w)) = connections (store w)"
    then have "\<not> accepts t (store w)"
      using completeConnection_changes [of t "store w"] by (simp add: on_store_def)
    then show "isLevelComplete (store (exec (CompleteConnection t) w)) = isLevelComplete (store w)"
      by (simp add: on_store_def completeConnection_rejected)
  qed
  have w3: "isLevelComplete (store (exec (AbsorbFragment i) w)) = (5 \<le> fragmentsCollected (store w) + 1)"
    "isLevelComplete (store (exec (GrowPlayer a) w)) = (8 < min (playerScale (store w) + a) 10)"
    "isLevelComplete (store (exec (HealLeaf a) w)) = (100 \<le> min (leafHealth (store w) + a) 100)"
    by (simp_all add: on_store_def absorbFragment_def growPlayer_def healLeaf_def Let_def)
  have st: "\<not> isLevelComplete (store (exec (StartLevel rnd l) w))"
    "\<not> isLevelComplete (store (exec ResetGame w))"
    by (simp_all add: on_store_def resetGame_def startLevel_fields)
  have kept: "isLevelComplete (store w) \<and> \<not> is_start op \<and> own_condition op (store w)
        \<longrightarrow> isLevelComplete (store (exec op w))"
    using complete_kept [of w op] by blast
  from st w3 acc rej sel tick frame kept show ?thesis by (intro conjI)
qed

lemma grown_store:
  "isLevelComplete (store grown_world)" "playerScale (store grown_world) = 10"
  by (simp_all add: grown_world_def on_store_def growPlayer_def startLevel_fields Let_def)

text \<open>
  C1 (as stated) fails: a level completed by growth is incomplete again after a call of
  \<open>healLeaf\<close>, with no level start in between.
\<close>

theorem healing_resets_completion:
  "isLevelComplete (store grown_world)
   \<and> \<not> isLevelComplete (store (exec (HealLeaf 1) grown_world))"
proof -
  have "leafHealth (store grown_world) = 0"
    by (simp add: grown_world_def on_store_def growPlayer_def startLevel_fields Let_def)
  then show ?thesis by (simp add: grown_store on_store_def healLeaf_def Let_def)
qed

theorem completion_steps_witness:
  "\<not> isLevelComplete (store (exec (StartLevel zero_source WIND) grown_world))
   \<and> isLevelComplete (store grown_world)
   \<and> own_condition (GrowPlayer 1) (store grown_world)
   \<and> isLevelComplete (store (exec (GrowPlayer 1) grown_world))
   \<and> isLevelComplete (store (exec AdvanceNarrative grown_world))
   \<and> \<not> isLevelComplete (store (exec (AbsorbFragment ''mushroom'') grown_world))
   \<and> connections (store (exec (CompleteConnection ''fleshball-0'') grown_world))
       = connections (store grown_world)
   \<and> isLevelComplete (store (exec (CompleteConnection ''fleshball-0'') grown_world))
   \<and> connections (store (exec (CompleteConnection ''n1-1'') drag_world))
       \<noteq> connections (store drag_world)
   \<and> \<not> isLevelComplete (store (exec (CompleteConnection ''n1-1'') drag_world))"
proof -
  have h: "isLevelComplete (store grown_world) \<and> \<not> is_start (GrowPlayer 1)
      \<and> own_condition (GrowPlayer 1) (store grown_world)"
    by (simp add: grown_store)
  have g: "fragmentsCollected (store grown_world) = 0"
    "connections (store (exec (CompleteConnection ''fleshball-0'') grown_world))
       = connections (store grown_world)"
    by (simp_all add: grown_world_def on_store_def growPlayer_def startLevel_def
        completeConnection_def sourceId_def Let_def)
  note a = completion_steps [of zero_source WIND grown_world "''mushroom''" 1
      "''fleshball-0''" "''TEAR''" 0 "GrowPlayer 1"]
  note a' = completion_steps [of zero_source WIND grown_world "''mushroom''" 1
      "''fleshball-0''" "''TEAR''" 0 AdvanceNarrative]
  from a' h have adv: "isLevelComplete (store (exec AdvanceNarrative grown_world))"
    by simp
  have c: "connections (store (exec (CompleteConnection ''n1-1'') drag_world)) = [(''n1-0'', ''n1-1'')]"
    by (simp add: on_store_def completeConnection_def sourceId_def drag_world_store at_index_def
        Let_def)
  have "map n_id (nodes (store drag_world))
      = [''n1-0'', ''n1-1'', ''n1-2'', ''n1-3'', ''n1-4'', ''n1-5'']"
    by (simp add: drag_world_def on_store_def startDragConnection_def level1_nodes)
  from arg_cong [OF this, of length] have n: "length (nodes (store drag_world)) = 6"
    by simp
  note b = completion_steps [of zero_source WIND drag_world "''mushroom''" 1
      "''n1-1''" "''TEAR''" 0 "GrowPlayer 1"]
  from b c n have d: "\<not> isLevelComplete (store (exec (CompleteConnection ''n1-1'') drag_world))"
    by (simp add: drag_world_store flat_def)
  from a h g c d adv show ?thesis by (simp add: drag_world_store)
qed

lemma gauges_exec:
  assumes "gauges_inv (store w)" and "nonneg_amount op"
  shows "gauges_inv (store (exec op w))"
  using assms
  by (cases op)
     (auto simp add: gauges_inv_def op_defs completeConnection_def resetGame_def
        startLevel_fields Let_def split: option.splits)

lemma gauges_run:
  "gauges_inv (store w) \<Longrightarrow> \<forall>op\<in>set ops. nonneg_amount op \<Longrightarrow> gauges_inv (store (run ops w))"
  by (induction ops arbitrary: w) (simp_all add: gauges_exec)

lemma gauges_initial: "gauges_inv (store initialWorld)"
  by (simp add: gauges_inv_def initialWorld_def initialState_def)

lemma gauges_mono:
  assumes "gauges_inv (store w)" and "nonneg_amount op" and "\<not> is_start op"
  shows "playerScale (store w) \<le> playerScale (store (exec op w))
    \<and> leafHealth (store w) \<le> leafHealth (store (exec op w))
    \<and> rainLevel (store w) \<le> rainLevel (store (exec op w))"
  using assms
  by (cases op)
     (auto simp add: gauges_inv_def op_defs completeConnection_def Let_def split: option.splits)

text \<open>
  C5 (as amended). In every run from the initial store whose growth and healing amounts are
  not negative, \<open>playerScale\<close> is in \<open>[1, 10]\<close>, \<open>leafHealth\<close> in \<open>[0, 100]\<close> and
  \<open>rainLevel\<close> in \<open>[0, 20.04)\<close>; none of the three decreases under a further operation
  (other than a level start, amount not negative); \<open>growPlayer\<close> and \<open>healLeaf\<close> clamp
  with \<open>min\<close> at 10 and 100; a tick adds 0.04 to the rain level only when the level it
  reads is below 20 (nothing clamps the sum).
\<close>

theorem gauges_bounded:
  assumes "\<forall>op\<in>set ops. nonneg_amount op" and "w = run ops initialWorld"
  shows "1 \<le> playerScale (store w) \<and> playerScale (store w) \<le> 10
    \<and> 0 \<le> leafHealth (store w) \<and> leafHealth (store w) \<le> 100
    \<and> 0 \<le> rainLevel (store w) \<and> rainLevel (store w) < 20 + 0.04
    \<and> (nonneg_amount op \<and> \<not> is_start op \<longrightarrow>
         playerScale (store w) \<le> playerScale (store (exec op w))
         \<and> leafHealth (store w) \<le> leafHealth (store (exec op w))
         \<and> rainLevel (store w) \<le> rainLevel (store (exec op w)))
    \<and> playerScale (growPlayer a (store w)) = min (playerScale (store w) + a) 10
    \<and> leafHealth (healLeaf a (store w)) = min (leafHealth (store w) + a) 100
    \<and> rainLevel (store (exec (Tick i) w))
        = (if i < length (intervals w) \<and> \<not> cleared (intervals w ! i) \<and> rainLevel (store w) < 20
           then rainLevel (store w) + 0.04 else rainLevel (store w))"
proof -
  have inv: "gauges_inv (store w)"
    using assms gauges_run [OF gauges_initial, of ops] by simp
  have t: "rainLevel (store (exec (Tick i) w))
        = (if i < length (intervals w) \<and> \<not> cleared (intervals w ! i) \<and> rainLevel (store w) < 20
           then rainLevel (store w) + 0.04 else rainLevel (store w))"
    by (simp add: rainTick_def Let_def)
  from inv gauges_mono [OF inv, of op] t show ?thesis
    by (simp add: gauges_inv_def growPlayer_def healLeaf_def Let_def)
qed

text \<open>
  C5 (as stated) fails: a negative amount takes the scale below 1 and the leaf health
  below 0.
\<close>

theorem negative_amounts_shrink:
  "playerScale (store (run shrink_ops initialWorld)) = 0
   \<and> leafHealth (store (run shrink_ops initialWorld)) = - 5"
  by (simp add: shrink_ops_def on_store_def growPlayer_def healLeaf_def startLevel_fields Let_def)

theorem gauges_bounded_witness:
  "list_all nonneg_amount grow_ops
   \<and> playerScale (store (run grow_ops initialWorld)) = 10
   \<and> leafHealth (store (run grow_ops initialWorld)) = 30
   \<and> rainLevel (store (run grow_ops initialWorld)) = 0.04
   \<and> rainLevel (store (run grow_ops initialWorld)) < 20 + 0.04
   \<and> playerScale (store (run grow_ops initialWorld))
       \<le> playerScale (store (exec (GrowPlayer 3) (run grow_ops initialWorld)))"
proof -
  have ok: "\<forall>op\<in>set grow_ops. nonneg_amount op" by (simp add: grow_ops_def)
  have v: "playerScale (store (run grow_ops initialWorld)) = 10"
    "leafHealth (store (run grow_ops initialWorld)) = 30"
    "rainLevel (store (run grow_ops initialWorld)) = 0.04"
    by (simp_all add: grow_ops_def op_defs startLevel_fields initialWorld_def Let_def)
  from gauges_bounded [OF ok refl, of "GrowPlayer 3"] ok v show ?thesis
    by (simp add: list_all_iff)
qed


section \<open>The rain sequence\<close>























end
